theory Spec2Isabelle
  imports Complex_Main "HOL-Library.Sublist"
begin

section \<open>JavaScript values and strings\<close>

text \<open>
  Strings are \<^typ>\<open>string\<close>. The only character-level operation of the sources that
  matters here is \<^verbatim>\<open>toLowerCase\<close>, modelled on the ASCII letters; every other
  character is left as it is (no character outside ASCII lowercases to one of the ASCII
  letters of a level name).
\<close>

definition lower_char :: "char \<Rightarrow> char" where
  "lower_char c =
     (case map_of (zip ''ABCDEFGHIJKLMNOPQRSTUVWXYZ'' ''abcdefghijklmnopqrstuvwxyz'') c of
        Some d \<Rightarrow> d
      | None \<Rightarrow> c)"

definition toLowerCase :: "string \<Rightarrow> string" where
  "toLowerCase s = map lower_char s"

text \<open>
  A value read out of an object: a number, a function or an object. A property that is
  not found reads as \<^verbatim>\<open>undefined\<close>, which is \<open>None\<close> here. Numbers are integers:
  the levels of pino and the values of the table are.
\<close>

datatype js_value = JNum int | JFunction string | JObject string

text \<open>
  Property access \<^verbatim>\<open>obj[key]\<close> on an object literal looks at the object's own
  properties first and then at the properties every object literal inherits from
  \<^verbatim>\<open>Object.prototype\<close>. The inherited members are functions, except
  \<^verbatim>\<open>__proto__\<close>, which reads as the prototype object itself.
\<close>

definition Object_prototype :: "(string \<times> js_value) list" where
  "Object_prototype =
     [(''constructor'', JFunction ''Object''),
      (''__defineGetter__'', JFunction ''__defineGetter__''),
      (''__defineSetter__'', JFunction ''__defineSetter__''),
      (''hasOwnProperty'', JFunction ''hasOwnProperty''),
      (''__lookupGetter__'', JFunction ''__lookupGetter__''),
      (''__lookupSetter__'', JFunction ''__lookupSetter__''),
      (''isPrototypeOf'', JFunction ''isPrototypeOf''),
      (''propertyIsEnumerable'', JFunction ''propertyIsEnumerable''),
      (''toString'', JFunction ''toString''),
      (''valueOf'', JFunction ''valueOf''),
      (''__proto__'', JObject ''Object.prototype''),
      (''toLocaleString'', JFunction ''toLocaleString'')]"

definition js_get :: "(string \<times> js_value) list \<Rightarrow> string \<Rightarrow> js_value option" where
  "js_get own key =
     (case map_of own key of
        Some v \<Rightarrow> Some v
      | None \<Rightarrow> map_of Object_prototype key)"

text \<open>The operator \<^verbatim>\<open>??\<close>: the right operand only for \<^verbatim>\<open>undefined\<close> (or null).\<close>

definition nullish :: "js_value option \<Rightarrow> js_value \<Rightarrow> js_value" where
  "nullish v d = (case v of None \<Rightarrow> d | Some x \<Rightarrow> x)"

text \<open>
  \<^verbatim>\<open>a >= b\<close> with a number on the left: two numbers compare as numbers; a function
  or a plain object on the right converts to a string that is no numeral, hence to NaN,
  and every comparison with NaN is false.
\<close>

fun js_ge :: "int \<Rightarrow> js_value \<Rightarrow> bool" where
  "js_ge a (JNum b) = (a \<ge> b)"
| "js_ge a (JFunction f) = False"
| "js_ge a (JObject ob) = False"

text \<open>
  A number of the configuration. The source takes \<^verbatim>\<open>retryAttempts\<close> and
  \<^verbatim>\<open>queueSizeLimit\<close> as they are given, without validation, and compares a counter
  or a length with them: such a number may be whole or fractional, negative, or NaN. It
  is a rational or NaN here (every finite JavaScript number is a rational); a comparison
  with NaN is false. The infinities are left out: with an infinite \<^verbatim>\<open>retryAttempts\<close>
  the retry loop has no last attempt.
\<close>

datatype js_number = Num rat | NaN

fun num_le :: "js_number \<Rightarrow> js_number \<Rightarrow> bool" where
  "num_le (Num a) (Num b) = (a \<le> b)"
| "num_le (Num a) NaN = False"
| "num_le NaN y = False"

fun num_lt :: "js_number \<Rightarrow> js_number \<Rightarrow> bool" where
  "num_lt (Num a) (Num b) = (a < b)"
| "num_lt (Num a) NaN = False"
| "num_lt NaN y = False"

definition num_ge :: "js_number \<Rightarrow> js_number \<Rightarrow> bool" where
  "num_ge x y = num_le y x"

text \<open>A counter or a length, as a number.\<close>

definition num_of_nat :: "nat \<Rightarrow> js_number" where
  "num_of_nat n = Num (of_nat n)"

section \<open>Level filtering (utils.ts, types.ts)\<close>

definition MIN_LEVEL_VALUES :: "(string \<times> js_value) list" where
  "MIN_LEVEL_VALUES =
     [(''trace'', JNum 10), (''debug'', JNum 20), (''info'', JNum 30),
      (''warn'', JNum 40), (''error'', JNum 50), (''fatal'', JNum 60)]"

definition getLevelValue :: "string \<Rightarrow> js_value" where
  "getLevelValue levelName =
     nullish (js_get MIN_LEVEL_VALUES (toLowerCase levelName)) (JNum 10)"

definition meetsMinimumLevel :: "int \<Rightarrow> string \<Rightarrow> bool" where
  "meetsMinimumLevel level minimumLevel =
     (let minValue = getLevelValue minimumLevel in js_ge level minValue)"


section \<open>The HTTP client (http-client.ts)\<close>

subsection \<open>Numbers as text, errors, requests\<close>

text \<open>
  \<^verbatim>\<open>retryAttempts\<close> is a \<open>js_number\<close>. The timeout, printed in a message
  only, and the HTTP status codes are natural numbers, and the retry delay is an
  integer; products and powers are exact. A template literal prints a natural number in
  decimal.
\<close>

definition digit_char :: "nat \<Rightarrow> char" where
  "digit_char d = ''0123456789'' ! d"

fun show_nat :: "nat \<Rightarrow> string" where
  "show_nat n =
     (if n < 10 then [digit_char n] else show_nat (n div 10) @ [digit_char (n mod 10)])"

declare show_nat.simps [simp del]

text \<open>
  An \<^verbatim>\<open>Error\<close> object with the fields the client reads: its name, its message and
  the optional \<^verbatim>\<open>code\<close> the client attaches. A thrown value is an \<^verbatim>\<open>Error\<close> or
  something else, kept as the text \<^verbatim>\<open>String(value)\<close> gives.
\<close>

record js_error =
  err_name :: string
  err_message :: string
  err_code :: "string option"

definition new_Error :: "string \<Rightarrow> js_error" where
  "new_Error msg = \<lparr>err_name = ''Error'', err_message = msg, err_code = None\<rparr>"

datatype thrown = Err js_error | NonError string

record HttpClientOptions =
  opt_serverUrl :: string
  opt_apiKey :: "string option"
  opt_timeout :: nat
  opt_retryAttempts :: js_number
  opt_retryDelay :: int

record QuickSearchHttpClient =
  serverUrl :: string
  apiKey :: "string option"
  timeout :: nat
  retryAttempts :: js_number
  retryDelay :: int
  endpoint :: string

record http_request =
  req_method :: string
  req_url :: string
  req_headers :: "(string \<times> string) list"
  req_body :: string

text \<open>
  What the client does to the outside, in order: \<open>Fetch r\<close> is a call of
  \<^verbatim>\<open>fetch\<close> with the request \<open>r\<close>, \<open>Sleep d\<close> a call of \<^verbatim>\<open>sleep(d)\<close>. Every
  call of \<open>sendEvent\<close> calls \<^verbatim>\<open>fetch\<close> once, so the requests of a trace are the
  attempts.
\<close>

datatype action = Fetch http_request | Sleep int

fun is_Fetch :: "action \<Rightarrow> bool" where
  "is_Fetch (Fetch r) = True"
| "is_Fetch (Sleep d) = False"

definition attempts :: "action list \<Rightarrow> nat" where
  "attempts tr = length (filter is_Fetch tr)"

definition sleeps :: "action list \<Rightarrow> int list" where
  "sleeps tr = concat (map (\<lambda>a. case a of Sleep d \<Rightarrow> [d] | Fetch r \<Rightarrow> []) tr)"

subsection \<open>Constructor and headers\<close>

text \<open>\<^verbatim>\<open>s.replace(/\/$/, '')\<close>: one slash at the very end of the string is removed.\<close>

definition strip_trailing_slash :: "string \<Rightarrow> string" where
  "strip_trailing_slash s = (if s \<noteq> [] \<and> last s = CHR ''/'' then butlast s else s)"

definition constructor :: "HttpClientOptions \<Rightarrow> QuickSearchHttpClient" where
  "constructor options =
     \<lparr>serverUrl = strip_trailing_slash (opt_serverUrl options),
      apiKey = opt_apiKey options,
      timeout = opt_timeout options,
      retryAttempts = opt_retryAttempts options,
      retryDelay = opt_retryDelay options,
      endpoint = strip_trailing_slash (opt_serverUrl options) @ ''/api/events''\<rparr>"

text \<open>\<^verbatim>\<open>if (this.apiKey)\<close>: an absent key and the empty string are both falsy.\<close>

definition getHeaders :: "QuickSearchHttpClient \<Rightarrow> (string \<times> string) list" where
  "getHeaders c =
     [(''Content-Type'', ''application/json'')] @
     (case apiKey c of
        None \<Rightarrow> []
      | Some k \<Rightarrow> if k \<noteq> [] then [(''Authorization'', ''Bearer '' @ k)] else [])"

subsection \<open>One attempt: sendEvent\<close>

text \<open>
  \<open>stringify\<close> stands for \<^verbatim>\<open>JSON.stringify\<close> on events; it is taken as total (the
  events of the transport are built from records parsed from JSON).

  The network is the environment. What \<^verbatim>\<open>fetch\<close> does with one request is a
  \<open>fetch_outcome\<close>: either it rejects (a network failure, or an \<^verbatim>\<open>AbortError\<close> when
  the timeout aborts the request), or it resolves with a response, given by its status,
  the result of \<^verbatim>\<open>response.text()\<close> (\<open>None\<close> when reading it fails) and the result
  of \<^verbatim>\<open>response.json()\<close>.
\<close>

datatype 'r fetch_outcome =
    Responded nat "string option" "thrown + 'r"
  | Rejected thrown

definition response_ok :: "nat \<Rightarrow> bool" where
  "response_ok st = (200 \<le> st \<and> st \<le> 299)"

definition http_error :: "nat \<Rightarrow> string \<Rightarrow> js_error" where
  "http_error st txt =
     (new_Error (''HTTP '' @ show_nat st @ '': '' @ txt))\<lparr>err_code := Some (''HTTP_'' @ show_nat st)\<rparr>"

definition timeout_error :: "QuickSearchHttpClient \<Rightarrow> js_error" where
  "timeout_error c =
     (new_Error (''Request timeout after '' @ show_nat (timeout c) @ ''ms''))\<lparr>err_code := Some ''TIMEOUT''\<rparr>"

definition sendEvent_request :: "QuickSearchHttpClient \<Rightarrow> ('e \<Rightarrow> string) \<Rightarrow> 'e \<Rightarrow> http_request" where
  "sendEvent_request c stringify event =
     \<lparr>req_method = ''POST'', req_url = endpoint c, req_headers = getHeaders c,
      req_body = stringify event\<rparr>"

text \<open>The \<^verbatim>\<open>try\<close> block of \<^verbatim>\<open>sendEvent\<close>, then its \<^verbatim>\<open>catch\<close>.\<close>

definition sendEvent_try :: "'r fetch_outcome \<Rightarrow> thrown + 'r" where
  "sendEvent_try fo =
     (case fo of
        Rejected t \<Rightarrow> Inl t
      | Responded st txt js \<Rightarrow>
          if \<not> response_ok st
          then Inl (Err (http_error st (case txt of None \<Rightarrow> ''Unknown error'' | Some t \<Rightarrow> t)))
          else js)"

definition sendEvent_catch :: "QuickSearchHttpClient \<Rightarrow> thrown \<Rightarrow> thrown" where
  "sendEvent_catch c error =
     (case error of
        Err e \<Rightarrow> if err_name e = ''AbortError'' then Err (timeout_error c) else Err e
      | NonError s \<Rightarrow> NonError s)"

definition sendEvent ::
  "QuickSearchHttpClient \<Rightarrow> ('e \<Rightarrow> string) \<Rightarrow> 'e \<Rightarrow> 'r fetch_outcome \<Rightarrow> action list \<times> (thrown + 'r)" where
  "sendEvent c stringify event fo =
     ([Fetch (sendEvent_request c stringify event)],
      case sendEvent_try fo of
        Inl error \<Rightarrow> Inl (sendEvent_catch c error)
      | Inr result \<Rightarrow> Inr result)"

subsection \<open>The retry loop: sendEventWithRetry\<close>

definition isNonRetryableError :: "js_error \<Rightarrow> bool" where
  "isNonRetryableError error =
     (case err_code error of
        None \<Rightarrow> False
      | Some code \<Rightarrow>
          if code = [] then False
          else if prefix ''HTTP_4'' code \<and> code \<noteq> ''HTTP_429'' then True
          else False)"

text \<open>\<^verbatim>\<open>error instanceof Error ? error : new Error(String(error))\<close>\<close>

fun toError :: "thrown \<Rightarrow> js_error" where
  "toError (Err e) = e"
| "toError (NonError s) = new_Error s"

text \<open>\<^verbatim>\<open>throw lastError\<close>, where \<^verbatim>\<open>lastError\<close> may still be \<^verbatim>\<open>undefined\<close>.\<close>

fun throw_lastError :: "js_error option \<Rightarrow> thrown" where
  "throw_lastError None = NonError ''undefined''"
| "throw_lastError (Some e) = Err e"

definition emit :: "action list \<Rightarrow> action list \<times> 'a \<Rightarrow> action list \<times> 'a" where
  "emit as p = (as @ fst p, snd p)"

text \<open>
  The \<^verbatim>\<open>for\<close> loop of \<^verbatim>\<open>sendEventWithRetry\<close>, from the attempt \<open>attempt\<close> on.
  \<open>net k\<close> is what the network does with the request of attempt \<open>k\<close>.
\<close>

function retry_loop ::
  "QuickSearchHttpClient \<Rightarrow> ('e \<Rightarrow> string) \<Rightarrow> (nat \<Rightarrow> 'r fetch_outcome) \<Rightarrow> 'e \<Rightarrow> nat \<Rightarrow> js_error option
     \<Rightarrow> action list \<times> (thrown + 'r)" where
  "retry_loop c stringify net event attempt lastError =
     (if num_le (num_of_nat attempt) (retryAttempts c) then
        (case snd (sendEvent c stringify event (net attempt)) of
           Inr result \<Rightarrow> (fst (sendEvent c stringify event (net attempt)), Inr result)
         | Inl error \<Rightarrow>
             if isNonRetryableError (toError error)
             then (fst (sendEvent c stringify event (net attempt)), Inl (Err (toError error)))
             else if num_lt (num_of_nat attempt) (retryAttempts c)
             then emit (fst (sendEvent c stringify event (net attempt)) @ [Sleep (retryDelay c * 2 ^ attempt)])
                    (retry_loop c stringify net event (attempt + 1) (Some (toError error)))
             else emit (fst (sendEvent c stringify event (net attempt)))
                    (retry_loop c stringify net event (attempt + 1) (Some (toError error))))
      else ([], Inl (throw_lastError lastError)))"
  by pat_completeness auto
termination
proof (relation "measure (\<lambda>(c, stringify, net, event, attempt, lastError).
    case retryAttempts c of Num r \<Rightarrow> nat \<lfloor>r\<rfloor> + 1 - attempt | NaN \<Rightarrow> 0)")
  show "wf (measure (\<lambda>(c :: QuickSearchHttpClient, stringify :: 'a \<Rightarrow> string, net :: nat \<Rightarrow> 'b fetch_outcome,
      event :: 'a, attempt :: nat, lastError :: js_error option).
    case retryAttempts c of Num r \<Rightarrow> nat \<lfloor>r\<rfloor> + 1 - attempt | NaN \<Rightarrow> 0))"
    by simp
next
  fix c :: QuickSearchHttpClient and attempt :: nat
  assume "num_le (num_of_nat attempt) (retryAttempts c)"
  then obtain r where r: "retryAttempts c = Num r" and le: "of_nat attempt \<le> r"
    by (cases "retryAttempts c") (simp_all add: num_of_nat_def)
  from le have "int attempt \<le> \<lfloor>r\<rfloor>" by (simp add: le_floor_iff)
  then have "attempt \<le> nat \<lfloor>r\<rfloor>" by simp
  then have m: "nat \<lfloor>r\<rfloor> + 1 - (attempt + 1) < nat \<lfloor>r\<rfloor> + 1 - attempt" by simp
  fix stringify :: "'a \<Rightarrow> string" and net :: "nat \<Rightarrow> 'b fetch_outcome" and event :: 'a
    and lastError :: "js_error option" and error :: thrown
  show "((c, stringify, net, event, attempt + 1, Some (toError error)),
         (c, stringify, net, event, attempt, lastError))
        \<in> measure (\<lambda>(c, stringify, net, event, attempt, lastError).
            case retryAttempts c of Num r \<Rightarrow> nat \<lfloor>r\<rfloor> + 1 - attempt | NaN \<Rightarrow> 0)"
    using m by (simp add: r)
  show "((c, stringify, net, event, attempt + 1, Some (toError error)),
         (c, stringify, net, event, attempt, lastError))
        \<in> measure (\<lambda>(c, stringify, net, event, attempt, lastError).
            case retryAttempts c of Num r \<Rightarrow> nat \<lfloor>r\<rfloor> + 1 - attempt | NaN \<Rightarrow> 0)"
    using m by (simp add: r)
qed

declare retry_loop.simps [simp del]

definition sendEventWithRetry ::
  "QuickSearchHttpClient \<Rightarrow> ('e \<Rightarrow> string) \<Rightarrow> (nat \<Rightarrow> 'r fetch_outcome) \<Rightarrow> 'e \<Rightarrow> action list \<times> (thrown + 'r)" where
  "sendEventWithRetry c stringify net event = retry_loop c stringify net event 0 None"

subsection \<open>The batch: sendEvents\<close>

text \<open>
  \<^verbatim>\<open>Promise.all\<close> resolves when every promise has resolved and rejects with the reason
  of a rejected one. Which one rejects first in time is not modelled (the first in the
  list is taken); the reason is only logged.
\<close>

fun Promise_all :: "('x + 'a) list \<Rightarrow> 'x + 'a list" where
  "Promise_all [] = Inr []"
| "Promise_all (Inl e # ps) = Inl e"
| "Promise_all (Inr v # ps) = (case Promise_all ps of Inl e \<Rightarrow> Inl e | Inr vs \<Rightarrow> Inr (v # vs))"

text \<open>
  \<open>nets i\<close> is the network as the sends of the \<open>i\<close>-th event of the batch see it. The
  trace lists the actions event by event; the sends run concurrently and their
  interleaving is not modelled. The diagnostic output of \<^verbatim>\<open>selfLog\<close> is not part of
  the traces. \<open>sendEvents_try\<close> is the \<^verbatim>\<open>try\<close> block, whose \<^verbatim>\<open>await\<close> throws
  when \<^verbatim>\<open>Promise.all\<close> rejects; the \<^verbatim>\<open>catch\<close> block logs and throws nothing.
\<close>

definition sendEvents_try :: "(thrown + 'r) list \<Rightarrow> thrown + unit" where
  "sendEvents_try promises =
     (case Promise_all promises of
        Inl error \<Rightarrow> Inl error
      | Inr results \<Rightarrow> Inr ())"

definition sendEvents ::
  "QuickSearchHttpClient \<Rightarrow> ('e \<Rightarrow> string) \<Rightarrow> (nat \<Rightarrow> nat \<Rightarrow> 'r fetch_outcome) \<Rightarrow> 'e list
     \<Rightarrow> action list \<times> (thrown + unit)" where
  "sendEvents c stringify nets events =
     (if length events = 0 then ([], Inr ())
      else
        let promises = map (\<lambda>i. sendEventWithRetry c stringify (nets i) (events ! i)) [0..<length events]
        in (concat (map fst promises),
            case sendEvents_try (map snd promises) of
              Inr u \<Rightarrow> Inr ()
            | Inl error \<Rightarrow> Inr ()))"

subsection \<open>The retry policy in the specification's words\<close>

text \<open>
  The schedule of a send that starts at attempt \<open>a\<close> and makes \<open>n\<close> further attempts:
  a request, and before each further attempt \<open>k\<close> a sleep of \<open>d * 2 ^ (k - 1)\<close>.
  Nothing follows the last request.
\<close>

fun backoff_from :: "http_request \<Rightarrow> int \<Rightarrow> nat \<Rightarrow> nat \<Rightarrow> action list" where
  "backoff_from req d a 0 = [Fetch req]"
| "backoff_from req d a (Suc n) = Fetch req # Sleep (d * 2 ^ a) # backoff_from req d (Suc a) n"

text \<open>
  The failures the specification calls retryable, as outcomes of \<^verbatim>\<open>fetch\<close>: the
  timeout (the request is aborted and \<^verbatim>\<open>fetch\<close> rejects with an \<^verbatim>\<open>AbortError\<close>),
  a network-level failure (\<^verbatim>\<open>fetch\<close> rejects with an error that carries no
  \<^verbatim>\<open>code\<close>, as the \<^verbatim>\<open>TypeError\<close> of \<^verbatim>\<open>fetch\<close> does, or a code that is not of the
  form \<^verbatim>\<open>HTTP_...\<close>, which only \<open>sendEvent\<close> gives, to responses), the status 429
  and every status from 500 to 599.
\<close>

definition retryable_failure :: "'r fetch_outcome \<Rightarrow> bool" where
  "retryable_failure fo =
     (case fo of
        Rejected t \<Rightarrow>
          (case t of
             Err e \<Rightarrow>
               err_name e = ''AbortError'' \<or>
               (case err_code e of None \<Rightarrow> True | Some code \<Rightarrow> \<not> prefix ''HTTP_'' code)
           | NonError s \<Rightarrow> False)
      | Responded st txt js \<Rightarrow> st = 429 \<or> (500 \<le> st \<and> st \<le> 599))"

subsection \<open>Example clients and networks\<close>

definition example_options :: HttpClientOptions where
  "example_options =
     \<lparr>opt_serverUrl = ''http://localhost:3000'', opt_apiKey = Some ''secret'',
      opt_timeout = 30000, opt_retryAttempts = Num 3, opt_retryDelay = 1000\<rparr>"

definition example_request :: http_request where
  "example_request =
     \<lparr>req_method = ''POST'', req_url = ''http://localhost:3000/api/events'',
      req_headers = [(''Content-Type'', ''application/json''), (''Authorization'', ''Bearer secret'')],
      req_body = ''{}''\<rparr>"

definition net_500_thrice :: "nat \<Rightarrow> unit fetch_outcome" where
  "net_500_thrice k = (if k < 3 then Responded 500 (Some ''busy'') (Inr ()) else Responded 200 None (Inr ()))"

definition net_404 :: "nat \<Rightarrow> unit fetch_outcome" where
  "net_404 k = Responded 404 (Some ''not found'') (Inr ())"

definition net_429 :: "nat \<Rightarrow> unit fetch_outcome" where
  "net_429 k = Responded 429 None (Inr ())"

definition slash_options :: HttpClientOptions where
  "slash_options =
     \<lparr>opt_serverUrl = ''http://h/'', opt_apiKey = Some [],
      opt_timeout = 30000, opt_retryAttempts = Num 0, opt_retryDelay = 1000\<rparr>"

definition fractional_options :: HttpClientOptions where
  "fractional_options =
     \<lparr>opt_serverUrl = ''http://localhost:3000'', opt_apiKey = Some ''secret'',
      opt_timeout = 30000, opt_retryAttempts = Num (3 / 2), opt_retryDelay = 1000\<rparr>"

definition negative_options :: HttpClientOptions where
  "negative_options =
     \<lparr>opt_serverUrl = ''http://localhost:3000'', opt_apiKey = Some ''secret'',
      opt_timeout = 30000, opt_retryAttempts = Num (- 1), opt_retryDelay = 1000\<rparr>"

definition net_500_always :: "nat \<Rightarrow> unit fetch_outcome" where
  "net_500_always k = Responded 500 (Some ''busy'') (Inr ())"

definition net_ok :: "nat \<Rightarrow> unit fetch_outcome" where
  "net_ok k = Responded 200 None (Inr ())"

definition nets_404 :: "nat \<Rightarrow> nat \<Rightarrow> unit fetch_outcome" where
  "nets_404 i = net_404"

section \<open>The transport (transport.ts)\<close>

text \<open>
  The state of the transport is the record the source keeps. The buffer holds the
  oldest event first: \<^verbatim>\<open>push\<close> appends at the end, \<^verbatim>\<open>shift\<close> removes the first.
  \<^verbatim>\<open>queueSizeLimit\<close> is a \<open>js_number\<close>, compared with the length of the buffer as
  the source does.
\<close>

record TransportConfig =
  batchSize :: nat
  flushInterval :: nat
  queueSizeLimit :: js_number

datatype timer = Interval nat

record 'e TransportState =
  buffer :: "'e list"
  flushTimer :: "timer option"
  closed :: bool
  flushing :: bool

text \<open>
  \<^verbatim>\<open>flush\<close> is an \<^verbatim>\<open>async\<close> function. A call runs, without interruption, up to its
  \<^verbatim>\<open>await\<close> of \<^verbatim>\<open>httpClient.sendEvents(events)\<close>; what it did until then is a
  \<open>flush_call\<close>: it returned at once, or it took \<open>events\<close> out of the buffer and
  handed them to \<^verbatim>\<open>sendEvents\<close>. The rest of the call (\<open>flush_settled\<close>) runs when
  \<^verbatim>\<open>sendEvents\<close> has settled.
\<close>

datatype 'e flush_call = Returned | Dispatched "'e list"

fun dispatched :: "'e flush_call \<Rightarrow> 'e list" where
  "dispatched Returned = []"
| "dispatched (Dispatched events) = events"

fun is_Dispatched :: "'e flush_call \<Rightarrow> bool" where
  "is_Dispatched Returned = False"
| "is_Dispatched (Dispatched events) = True"

text \<open>\<^verbatim>\<open>buffer.splice(0)\<close> returns the elements from index 0 on and keeps those before it.\<close>

definition flush :: "'e TransportState \<Rightarrow> 'e TransportState \<times> 'e flush_call" where
  "flush state =
     (if length (buffer state) = 0 \<or> flushing state then (state, Returned)
      else
        let state1 = state\<lparr>flushing := True\<rparr>;
            events = drop 0 (buffer state1);
            state2 = state1\<lparr>buffer := take 0 (buffer state1)\<rparr>
        in (state2, Dispatched events))"

text \<open>The \<^verbatim>\<open>try\<close>, \<^verbatim>\<open>catch\<close> and \<^verbatim>\<open>finally\<close> blocks after the \<^verbatim>\<open>await\<close>.\<close>

definition flush_settled :: "thrown + unit \<Rightarrow> 'e TransportState \<Rightarrow> 'e TransportState" where
  "flush_settled outcome state =
     (case outcome of
        Inr u \<Rightarrow> state\<lparr>flushing := False\<rparr>
      | Inl error \<Rightarrow> state\<lparr>flushing := False\<rparr>)"

text \<open>\<^verbatim>\<open>Array.prototype.shift\<close>: nothing happens on an empty array.\<close>

fun shift :: "'e list \<Rightarrow> 'e list" where
  "shift [] = []"
| "shift (x # xs) = xs"

definition addToBuffer ::
  "TransportConfig \<Rightarrow> 'e \<Rightarrow> 'e TransportState \<Rightarrow> 'e TransportState \<times> 'e flush_call list" where
  "addToBuffer config event state =
     (if closed state then (state, [])
      else
        let state1 = (if num_ge (num_of_nat (length (buffer state))) (queueSizeLimit config)
                      then state\<lparr>buffer := shift (buffer state)\<rparr> else state);
            state2 = state1\<lparr>buffer := buffer state1 @ [event]\<rparr>
        in if length (buffer state2) \<ge> batchSize config
           then (fst (flush state2), [snd (flush state2)])
           else (state2, []))"

definition startFlushTimer :: "TransportConfig \<Rightarrow> 'e TransportState \<Rightarrow> 'e TransportState" where
  "startFlushTimer config state =
     (if flushTimer state \<noteq> None then state
      else state\<lparr>flushTimer := Some (Interval (flushInterval config))\<rparr>)"

definition stopFlushTimer :: "'e TransportState \<Rightarrow> 'e TransportState" where
  "stopFlushTimer state =
     (if flushTimer state \<noteq> None then state\<lparr>flushTimer := None\<rparr> else state)"

text \<open>
  \<^verbatim>\<open>close\<close>, up to its \<^verbatim>\<open>await flush()\<close>: the call of \<^verbatim>\<open>close\<close> completes when that
  call of \<^verbatim>\<open>flush\<close> does.
\<close>

definition close :: "'e TransportState \<Rightarrow> 'e TransportState \<times> 'e flush_call list" where
  "close state =
     (if closed state then (state, [])
      else
        let state1 = state\<lparr>closed := True\<rparr>;
            state2 = stopFlushTimer state1
        in (fst (flush state2), [snd (flush state2)]))"

definition initial_state :: "TransportConfig \<Rightarrow> 'e TransportState" where
  "initial_state config =
     startFlushTimer config \<lparr>buffer = [], flushTimer = None, closed = False, flushing = False\<rparr>"

text \<open>
  What happens to a transport, one event of the event loop at a time: a record is
  enqueued, the interval timer fires (only while it is set), \<^verbatim>\<open>close\<close> is called, or
  the \<^verbatim>\<open>sendEvents\<close> of the flush in progress settles (only while one is in
  progress). A run collects the calls of \<^verbatim>\<open>flush\<close> in order.
\<close>

datatype 'e input = Enqueue 'e | Tick | Close | Settled "thrown + unit"

fun is_Enqueue :: "'e input \<Rightarrow> bool" where
  "is_Enqueue (Enqueue event) = True"
| "is_Enqueue Tick = False"
| "is_Enqueue Close = False"
| "is_Enqueue (Settled outcome) = False"

fun step :: "TransportConfig \<Rightarrow> 'e TransportState \<Rightarrow> 'e input \<Rightarrow> 'e TransportState \<times> 'e flush_call list" where
  "step config state (Enqueue event) = addToBuffer config event state"
| "step config state Tick =
     (if flushTimer state = None then (state, []) else (fst (flush state), [snd (flush state)]))"
| "step config state Close = close state"
| "step config state (Settled outcome) =
     (if flushing state then (flush_settled outcome state, []) else (state, []))"

fun run :: "TransportConfig \<Rightarrow> 'e TransportState \<Rightarrow> 'e input list \<Rightarrow> 'e TransportState \<times> 'e flush_call list" where
  "run config state [] = (state, [])"
| "run config state (i # inputs) =
     (fst (run config (fst (step config state i)) inputs),
      snd (step config state i) @ snd (run config (fst (step config state i)) inputs))"

text \<open>
  The events the transport still holds after an operation, in the buffer or handed to
  \<^verbatim>\<open>sendEvents\<close> by it; and the buffer of \<^verbatim>\<open>addToBuffer\<close> right after its
  \<^verbatim>\<open>push\<close>.
\<close>

definition retained :: "'e TransportState \<times> 'e flush_call list \<Rightarrow> 'e list" where
  "retained r = concat (map dispatched (snd r)) @ buffer (fst r)"

definition pushed :: "TransportConfig \<Rightarrow> 'e \<Rightarrow> 'e TransportState \<Rightarrow> 'e list" where
  "pushed config event state =
     (if num_ge (num_of_nat (length (buffer state))) (queueSizeLimit config)
      then shift (buffer state) else buffer state) @ [event]"

subsection \<open>Example configurations\<close>

definition small_config :: TransportConfig where
  "small_config = \<lparr>batchSize = 2, flushInterval = 1000, queueSizeLimit = Num 10\<rparr>"

definition zero_queue_config :: TransportConfig where
  "zero_queue_config = \<lparr>batchSize = 100, flushInterval = 2000, queueSizeLimit = Num 0\<rparr>"

definition capacity2_config :: TransportConfig where
  "capacity2_config = \<lparr>batchSize = 100, flushInterval = 2000, queueSizeLimit = Num 2\<rparr>"

definition fractional_queue_config :: TransportConfig where
  "fractional_queue_config = \<lparr>batchSize = 100, flushInterval = 2000, queueSizeLimit = Num (3 / 2)\<rparr>"

section \<open>Level filtering: results\<close>

lemma getLevelValue_known:
  "getLevelValue ''trace'' = JNum 10" "getLevelValue ''debug'' = JNum 20"
  "getLevelValue ''Info'' = JNum 30" "getLevelValue ''warn'' = JNum 40"
  "getLevelValue ''ERROR'' = JNum 50" "getLevelValue ''fatal'' = JNum 60"
  by (simp_all add: getLevelValue_def toLowerCase_def lower_char_def js_get_def
      MIN_LEVEL_VALUES_def nullish_def)

text \<open>
  A name that, lowercased, is neither a level name nor a member every object inherits
  reads as the default 10, and then nothing a pino logger emits is filtered.
\<close>

lemma getLevelValue_default:
  assumes "map_of MIN_LEVEL_VALUES (toLowerCase n) = None"
    and "map_of Object_prototype (toLowerCase n) = None"
  shows "getLevelValue n = JNum 10" and "meetsMinimumLevel l n = (l \<ge> 10)"
  using assms by (simp_all add: meetsMinimumLevel_def getLevelValue_def js_get_def nullish_def)

lemma getLevelValue_unknown: "getLevelValue ''unknown'' = JNum 10"
  by (simp add: getLevelValue_def toLowerCase_def lower_char_def js_get_def
      MIN_LEVEL_VALUES_def Object_prototype_def nullish_def)

text \<open>
  C10. The claim: for every level \<open>l\<close> and every \<open>minimumLevel\<close> whose lowercased form
  is none of the six level names, \<open>getLevelValue\<close> returns 10 and
  \<open>meetsMinimumLevel l minimumLevel\<close> is \<open>l \<ge> 10\<close>. The code does not do that for
  \<^verbatim>\<open>'constructor'\<close>: it is no level name, the lookup in the table finds the member
  inherited from \<^verbatim>\<open>Object.prototype\<close>, the default is not taken, \<open>getLevelValue\<close>
  returns a function and the comparison is false at every level, so that every record is
  filtered out, level 30 included.
\<close>

theorem C10_constructor_not_default:
  "toLowerCase ''constructor'' \<notin> set (map fst MIN_LEVEL_VALUES)
   \<and> getLevelValue ''constructor'' = JFunction ''Object''
   \<and> getLevelValue ''constructor'' \<noteq> JNum 10
   \<and> meetsMinimumLevel 30 ''constructor'' = False
   \<and> (30::int) \<ge> 10"
  by (simp add: meetsMinimumLevel_def getLevelValue_def toLowerCase_def lower_char_def
      js_get_def MIN_LEVEL_VALUES_def Object_prototype_def nullish_def)

section \<open>The HTTP client: auxiliary facts\<close>

lemma show_nat_3digits:
  assumes "100 \<le> n" "n < 1000"
  shows "show_nat n = [digit_char (n div 100), digit_char (n div 10 mod 10), digit_char (n mod 10)]"
proof -
  have a: "show_nat n = show_nat (n div 10) @ [digit_char (n mod 10)]"
    using assms by (subst show_nat.simps) simp
  have b: "show_nat (n div 10) = show_nat (n div 10 div 10) @ [digit_char (n div 10 mod 10)]"
    using assms by (subst show_nat.simps) simp
  have c: "show_nat (n div 10 div 10) = [digit_char (n div 10 div 10)]"
    using assms by (subst show_nat.simps) simp
  have d: "n div 10 div 10 = n div 100" by (simp add: div_mult2_eq[symmetric])
  show ?thesis using a b c d by simp
qed

lemma digit_char_eq:
  "d < 10 \<Longrightarrow> e < 10 \<Longrightarrow> digit_char d = digit_char e \<longleftrightarrow> d = e"
proof -
  have D: "d < 10 \<Longrightarrow> d \<in> {0,1,2,3,4,5,6,7,8,9}" for d :: nat by auto
  assume "d < 10" "e < 10"
  from D[OF this(1)] D[OF this(2)] show ?thesis
    by (auto simp: digit_char_def)
qed

lemma digit_char_numerals:
  "digit_char 2 = CHR ''2''" "digit_char 9 = CHR ''9''" "digit_char 4 = CHR ''4''"
  "digit_char 5 = CHR ''5''"
  by (simp_all add: digit_char_def)

lemma not_429_digits:
  fixes st :: nat
  assumes "400 \<le> st" "st \<le> 499" "st \<noteq> 429"
  shows "\<not> (st div 10 mod 10 = 2 \<and> st mod 10 = 9)" 
proof
  assume a: "st div 10 mod 10 = 2 \<and> st mod 10 = 9"
  have "st = (st div 10) * 10 + st mod 10" by simp
  moreover have "st div 10 = (st div 10 div 10) * 10 + st div 10 mod 10" by simp
  moreover have "st div 10 div 10 = 4" using assms by simp
  ultimately have "st = 429" using a by simp
  with assms show False by simp
qed

lemma code_4xx_nonretryable:
  "code = ''HTTP_'' @ [CHR ''4'', x, y] \<Longrightarrow> \<not> (x = CHR ''2'' \<and> y = CHR ''9'') \<Longrightarrow>
   isNonRetryableError (e\<lparr>err_code := Some code\<rparr>)"
  by (simp add: isNonRetryableError_def)

lemma code_5xx_retryable:
  "code = ''HTTP_'' @ [CHR ''5'', x, y] \<Longrightarrow> \<not> isNonRetryableError (e\<lparr>err_code := Some code\<rparr>)"
  by (simp add: isNonRetryableError_def)

lemma code_429_retryable: "\<not> isNonRetryableError (e\<lparr>err_code := Some ''HTTP_429''\<rparr>)"
  by (simp add: isNonRetryableError_def)

lemma client_error_nonretryable:
  assumes "400 \<le> st" "st \<le> 499" "st \<noteq> 429"
  shows "isNonRetryableError (http_error st txt)"
proof -
  have h: "st div 100 = 4" using assms by simp
  have s: "show_nat st = [CHR ''4'', digit_char (st div 10 mod 10), digit_char (st mod 10)]"
    using show_nat_3digits[of st] assms h by (simp add: digit_char_numerals)
  have x: "digit_char (st div 10 mod 10) = CHR ''2'' \<longleftrightarrow> st div 10 mod 10 = 2"
    using digit_char_eq[of "st div 10 mod 10" 2] by (simp add: digit_char_numerals)
  have y: "digit_char (st mod 10) = CHR ''9'' \<longleftrightarrow> st mod 10 = 9"
    using digit_char_eq[of "st mod 10" 9] by (simp add: digit_char_numerals)
  have ne: "\<not> (digit_char (st div 10 mod 10) = CHR ''2'' \<and> digit_char (st mod 10) = CHR ''9'')"
    using not_429_digits[OF assms] x y by simp
  show ?thesis unfolding http_error_def
    by (rule code_4xx_nonretryable[OF _ ne]) (simp add: s)
qed

lemma server_error_retryable:
  assumes "st = 429 \<or> (500 \<le> st \<and> st \<le> 599)"
  shows "\<not> isNonRetryableError (http_error st txt)"
  using assms
proof
  assume "st = 429"
  then have "show_nat st = ''429''"
    using show_nat_3digits[of st] by (simp add: digit_char_def)
  then show ?thesis unfolding http_error_def by (simp add: code_429_retryable)
next
  assume a: "500 \<le> st \<and> st \<le> 599"
  then have a1: "500 \<le> st" and a2: "st \<le> 599" by simp_all
  have h: "st div 100 = 5" using a1 a2 by simp
  have s: "show_nat st = [CHR ''5'', digit_char (st div 10 mod 10), digit_char (st mod 10)]"
    using show_nat_3digits[of st] a h by (simp add: digit_char_numerals)
  show ?thesis unfolding http_error_def
    by (rule code_5xx_retryable) (simp add: s)
qed

lemma timeout_error_retryable: "\<not> isNonRetryableError (timeout_error c)"
  by (simp add: isNonRetryableError_def timeout_error_def new_Error_def)

lemma foreign_code_retryable:
  "(case err_code e of None \<Rightarrow> True | Some code \<Rightarrow> \<not> prefix ''HTTP_'' code) \<Longrightarrow>
   \<not> isNonRetryableError e"
proof (cases "err_code e")
  case None
  then show ?thesis by (simp add: isNonRetryableError_def)
next
  case (Some code)
  assume "case err_code e of None \<Rightarrow> True | Some code \<Rightarrow> \<not> prefix ''HTTP_'' code"
  with Some have n: "\<not> prefix ''HTTP_'' code" by simp
  have "prefix ''HTTP_'' ''HTTP_4''" by simp
  then have "prefix ''HTTP_4'' code \<Longrightarrow> prefix ''HTTP_'' code"
    by (rule prefix_order.trans)
  with n have "\<not> prefix ''HTTP_4'' code" by blast
  then show ?thesis by (simp add: isNonRetryableError_def Some)
qed

lemma length_backoff_from: "length (backoff_from req d a n) = 2 * n + 1"
  by (induction n arbitrary: a) simp_all

lemma attempts_backoff_from: "attempts (backoff_from req d a n) = n + 1"
  by (induction n arbitrary: a) (simp_all add: attempts_def)

lemma nth_even_backoff_from: "k \<le> n \<Longrightarrow> backoff_from req d a n ! (2 * k) = Fetch req"
proof (induction n arbitrary: a k)
  case 0
  then show ?case by simp
next
  case (Suc n)
  show ?case
  proof (cases k)
    case 0
    then show ?thesis by simp
  next
    case (Suc j)
    with Suc.prems have "j \<le> n" by simp
    from Suc.IH[OF this] Suc show ?thesis by simp
  qed
qed

lemma nth_odd_backoff_from: "k < n \<Longrightarrow> backoff_from req d a n ! (2 * k + 1) = Sleep (d * 2 ^ (a + k))"
proof (induction n arbitrary: a k)
  case 0
  then show ?case by simp
next
  case (Suc n)
  show ?case
  proof (cases k)
    case 0
    then show ?thesis by simp
  next
    case (Suc j)
    with Suc.prems have "j < n" by simp
    from Suc.IH[OF this, of "Suc a"] Suc show ?thesis by simp
  qed
qed

lemma backoff_from_nonempty: "backoff_from req d a n \<noteq> []"
  by (cases n) simp_all

lemma last_backoff_from: "last (backoff_from req d a n) = Fetch req"
  by (induction n arbitrary: a) (simp_all add: backoff_from_nonempty)

lemma sleeps_backoff_from:
  "sleeps (backoff_from req d a n) = map (\<lambda>k. d * 2 ^ k) [a..<a + n]"
proof (induction n arbitrary: a)
  case 0
  then show ?case by (simp add: sleeps_def)
next
  case (Suc n)
  have "[a..<a + Suc n] = a # [Suc a..<Suc a + n]" by (simp add: upt_conv_Cons)
  then show ?case using Suc[of "Suc a"] by (simp add: sleeps_def)
qed

lemma fst_sendEvent: "fst (sendEvent c sf ev fo) = [Fetch (sendEvent_request c sf ev)]"
  by (simp add: sendEvent_def)

lemma snd_sendEvent_http:
  "\<not> response_ok st \<Longrightarrow>
   snd (sendEvent c sf ev (Responded st bodytext js)) =
     Inl (Err (http_error st (case bodytext of None \<Rightarrow> ''Unknown error'' | Some t \<Rightarrow> t)))"
  by (simp add: sendEvent_def sendEvent_try_def sendEvent_catch_def http_error_def new_Error_def)

lemma num_cmp_nat:
  "num_le (num_of_nat a) (Num (of_nat b)) = (a \<le> b)"
  "num_lt (num_of_nat a) (Num (of_nat b)) = (a < b)"
  "num_ge (num_of_nat a) (Num (of_nat b)) = (b \<le> a)"
  by (simp_all add: num_of_nat_def num_ge_def)

lemma retry_loop_past_end:
  "\<not> num_le (num_of_nat a) (retryAttempts c) \<Longrightarrow>
   retry_loop c sf net ev a le = ([], Inl (throw_lastError le))"
  by (subst retry_loop.simps) simp

lemma Fetch_in_retry_loop:
  "Fetch r \<in> set (fst (retry_loop c sf net ev a le)) \<Longrightarrow> r = sendEvent_request c sf ev"
proof (induction c sf net ev a le rule: retry_loop.induct)
  case (1 c sf net ev a le)
  show ?case
  proof (cases "num_le (num_of_nat a) (retryAttempts c)")
    case False
    with "1.prems" show ?thesis by (simp add: retry_loop_past_end)
  next
    case True
    show ?thesis
    proof (cases "snd (sendEvent c sf ev (net a))")
      case (Inr x)
      with "1.prems" True show ?thesis
        by (subst (asm) retry_loop.simps) (simp add: fst_sendEvent)
    next
      case (Inl t)
      show ?thesis
      proof (cases "isNonRetryableError (toError t)")
        case nr: True
        with "1.prems" True Inl show ?thesis
          by (subst (asm) retry_loop.simps) (simp add: fst_sendEvent)
      next
        case nr: False
        show ?thesis
        proof (cases "num_lt (num_of_nat a) (retryAttempts c)")
          case lt: True
          from "1.prems" True Inl nr lt
          have "r = sendEvent_request c sf ev \<or>
                Fetch r \<in> set (fst (retry_loop c sf net ev (a + 1) (Some (toError t))))"
            by (subst (asm) retry_loop.simps) (auto simp: fst_sendEvent emit_def)
          then show ?thesis using "1.IH"(1)[OF True Inl nr lt] by blast
        next
          case lt: False
          from "1.prems" True Inl nr lt
          have "r = sendEvent_request c sf ev \<or>
                Fetch r \<in> set (fst (retry_loop c sf net ev (a + 1) (Some (toError t))))"
            by (subst (asm) retry_loop.simps) (auto simp: fst_sendEvent emit_def)
          then show ?thesis using "1.IH"(2)[OF True Inl nr lt] by blast
        qed
      qed
    qed
  qed
qed

lemma retry_loop_shape:
  "retryAttempts c = Num (of_nat R) \<Longrightarrow> a \<le> R \<Longrightarrow>
   \<exists>n. a + n \<le> R
     \<and> fst (retry_loop c sf net ev a le) = backoff_from (sendEvent_request c sf ev) (retryDelay c) a n
     \<and> (case snd (retry_loop c sf net ev a le) of
          Inr r \<Rightarrow> snd (sendEvent c sf ev (net (a + n))) = Inr r
        | Inl t \<Rightarrow> \<exists>e. snd (sendEvent c sf ev (net (a + n))) = Inl e \<and> t = Err (toError e)
                    \<and> (isNonRetryableError (toError e) \<or> a + n = R))
     \<and> (\<forall>k. a \<le> k \<and> k < a + n \<longrightarrow>
           (\<exists>e. snd (sendEvent c sf ev (net k)) = Inl e \<and> \<not> isNonRetryableError (toError e)))"
proof (induction "R - a" arbitrary: a le)
  case 0
  then have a: "a = R" by simp
  note whole = "0.prems"(1)
  let ?req = "sendEvent_request c sf ev"
  note f = fst_sendEvent
  show ?case
  proof (cases "snd (sendEvent c sf ev (net a))")
    case (Inr r)
    then have "retry_loop c sf net ev a le = ([Fetch ?req], Inr r)"
      using a by (subst retry_loop.simps) (simp add: f whole num_cmp_nat)
    then show ?thesis using Inr by (intro exI[of _ 0]) (auto simp: a)
  next
    case (Inl t)
    have "retry_loop c sf net ev a le = ([Fetch ?req], Inl (Err (toError t)))"
      using a Inl by (subst retry_loop.simps) (simp add: f retry_loop_past_end emit_def whole num_cmp_nat)
    then show ?thesis using Inl by (intro exI[of _ 0]) (auto simp: a)
  qed
next
  case (Suc m)
  then have lt: "a < R" by simp
  note whole = Suc.prems(1)
  let ?req = "sendEvent_request c sf ev"
  note f = fst_sendEvent
  show ?case
  proof (cases "snd (sendEvent c sf ev (net a))")
    case (Inr r)
    then have "retry_loop c sf net ev a le = ([Fetch ?req], Inr r)"
      using lt by (subst retry_loop.simps) (simp add: f whole num_cmp_nat)
    then show ?thesis using Inr lt by (intro exI[of _ 0]) auto
  next
    case (Inl t)
    show ?thesis
    proof (cases "isNonRetryableError (toError t)")
      case True
      then have "retry_loop c sf net ev a le = ([Fetch ?req], Inl (Err (toError t)))"
        using lt Inl by (subst retry_loop.simps) (simp add: f whole num_cmp_nat)
      then show ?thesis using Inl True lt by (intro exI[of _ 0]) auto
    next
      case False
      have m: "m = R - (a + 1)" using Suc.hyps(2) by simp
      have le': "a + 1 \<le> R" using lt by simp
      from Suc.hyps(1)[OF m whole le', of "Some (toError t)"]
      obtain n where n: "a + 1 + n \<le> R"
        and tr: "fst (retry_loop c sf net ev (a + 1) (Some (toError t))) = backoff_from ?req (retryDelay c) (a + 1) n"
        and res: "(case snd (retry_loop c sf net ev (a + 1) (Some (toError t))) of
          Inr r \<Rightarrow> snd (sendEvent c sf ev (net (a + 1 + n))) = Inr r
        | Inl t \<Rightarrow> \<exists>e. snd (sendEvent c sf ev (net (a + 1 + n))) = Inl e \<and> t = Err (toError e)
                    \<and> (isNonRetryableError (toError e) \<or> a + 1 + n = R))"
        and prev: "\<forall>k. a + 1 \<le> k \<and> k < a + 1 + n \<longrightarrow>
           (\<exists>e. snd (sendEvent c sf ev (net k)) = Inl e \<and> \<not> isNonRetryableError (toError e))"
        by blast
      have unf: "retry_loop c sf net ev a le =
          emit ([Fetch ?req] @ [Sleep (retryDelay c * 2 ^ a)]) (retry_loop c sf net ev (a + 1) (Some (toError t)))"
        using lt Inl False by (subst retry_loop.simps) (simp add: f whole num_cmp_nat)
      have t1: "fst (retry_loop c sf net ev a le) = backoff_from ?req (retryDelay c) a (Suc n)"
        using tr by (simp add: unf emit_def)
      have t2: "snd (retry_loop c sf net ev a le) = snd (retry_loop c sf net ev (a + 1) (Some (toError t)))"
        by (simp add: unf emit_def)
      have t3: "\<forall>k. a \<le> k \<and> k < a + Suc n \<longrightarrow>
           (\<exists>e. snd (sendEvent c sf ev (net k)) = Inl e \<and> \<not> isNonRetryableError (toError e))"
      proof (intro allI impI)
        fix k assume k: "a \<le> k \<and> k < a + Suc n"
        show "\<exists>e. snd (sendEvent c sf ev (net k)) = Inl e \<and> \<not> isNonRetryableError (toError e)"
        proof (cases "k = a")
          case True
          then show ?thesis using Inl False by simp
        next
          case False
          then have "a + 1 \<le> k \<and> k < a + 1 + n" using k by simp
          then show ?thesis using prev by blast
        qed
      qed
      have t4: "a + Suc n \<le> R" using n by simp
      have e1: "a + 1 + n = a + Suc n" by simp
      show ?thesis
        apply (rule exI[of _ "Suc n"])
        apply (intro conjI)
           apply (rule t4)
          apply (rule t1)
         apply (simp only: t2)
        using res apply (simp only: e1)
        apply (rule t3)
        done
    qed
  qed
qed

lemma sendEventWithRetry_shape:
  "retryAttempts c = Num (of_nat R) \<Longrightarrow>
   \<exists>n. n \<le> R
     \<and> fst (sendEventWithRetry c sf net ev) = backoff_from (sendEvent_request c sf ev) (retryDelay c) 0 n
     \<and> (case snd (sendEventWithRetry c sf net ev) of
          Inr r \<Rightarrow> snd (sendEvent c sf ev (net n)) = Inr r
        | Inl t \<Rightarrow> \<exists>e. snd (sendEvent c sf ev (net n)) = Inl e \<and> t = Err (toError e)
                    \<and> (isNonRetryableError (toError e) \<or> n = R))"
  using retry_loop_shape[of c R 0 sf net ev None] unfolding sendEventWithRetry_def add_0 by blast

lemma retryable_failure_retryable:
  assumes "retryable_failure fo"
  shows "\<exists>t. snd (sendEvent c sf ev fo) = Inl t \<and> \<not> isNonRetryableError (toError t)"
proof (cases fo)
  case (Responded st body js)
  with assms have st: "st = 429 \<or> (500 \<le> st \<and> st \<le> 599)" by (simp add: retryable_failure_def)
  then have "\<not> response_ok st" by (auto simp: response_ok_def)
  from snd_sendEvent_http[OF this, of c sf ev body js] server_error_retryable[OF st] show ?thesis
    by (auto simp: Responded)
next
  case (Rejected t)
  with assms obtain e where t: "t = Err e"
    and e: "err_name e = ''AbortError'' \<or>
            (case err_code e of None \<Rightarrow> True | Some code \<Rightarrow> \<not> prefix ''HTTP_'' code)"
    by (cases t) (simp_all add: retryable_failure_def)
  show ?thesis
  proof (cases "err_name e = ''AbortError''")
    case True
    then have "snd (sendEvent c sf ev fo) = Inl (Err (timeout_error c))"
      by (simp add: Rejected t sendEvent_def sendEvent_try_def sendEvent_catch_def)
    then show ?thesis by (simp add: timeout_error_retryable)
  next
    case False
    then have "snd (sendEvent c sf ev fo) = Inl (Err e)"
      by (simp add: Rejected t sendEvent_def sendEvent_try_def sendEvent_catch_def)
    moreover have "case err_code e of None \<Rightarrow> True | Some code \<Rightarrow> \<not> prefix ''HTTP_'' code"
      using e False by simp
    ultimately show ?thesis by (simp add: foreign_code_retryable)
  qed
qed

lemma example_request_eq:
  "sendEvent_request (constructor example_options) id ''{}'' = example_request"
  by (simp add: sendEvent_request_def constructor_def example_options_def example_request_def
      getHeaders_def strip_trailing_slash_def)

lemma show_nat_500: "show_nat 500 = ''500''" "show_nat 429 = ''429''" "show_nat 404 = ''404''"
  by (simp_all add: show_nat_3digits digit_char_def)

lemma example_run_500:
  "sendEventWithRetry (constructor example_options) id net_500_thrice ''{}'' =
     ([Fetch example_request, Sleep 1000, Fetch example_request, Sleep 2000,
       Fetch example_request, Sleep 4000, Fetch example_request], Inr ())"
proof -
  let ?c = "constructor example_options"
  have R: "retryAttempts ?c = Num 3" "retryDelay ?c = 1000"
    by (simp_all add: constructor_def example_options_def)
  have nr: "\<not> isNonRetryableError (http_error 500 ''busy'')"
    by (rule server_error_retryable) simp
  have f: "k < 3 \<Longrightarrow> sendEvent ?c id ''{}'' (net_500_thrice k) =
       ([Fetch example_request], Inl (Err (http_error 500 ''busy'')))" for k
    by (simp add: sendEvent_def example_request_eq net_500_thrice_def sendEvent_try_def
        response_ok_def sendEvent_catch_def http_error_def new_Error_def)
  have g: "sendEvent ?c id ''{}'' (net_500_thrice 3) = ([Fetch example_request], Inr ())"
    by (simp add: sendEvent_def example_request_eq net_500_thrice_def sendEvent_try_def
        response_ok_def)
  have l3: "retry_loop ?c id net_500_thrice ''{}'' (Suc (Suc (Suc 0))) le = ([Fetch example_request], Inr ())" for le
    using g by (subst retry_loop.simps) (simp add: R num_of_nat_def numeral_3_eq_3)
  have l2: "retry_loop ?c id net_500_thrice ''{}'' (Suc (Suc 0)) le =
      ([Fetch example_request, Sleep 4000, Fetch example_request], Inr ())" for le
    using l3 f[of "Suc (Suc 0)"] by (subst retry_loop.simps) (simp add: R nr emit_def num_of_nat_def)
  have l1: "retry_loop ?c id net_500_thrice ''{}'' (Suc 0) le =
      ([Fetch example_request, Sleep 2000, Fetch example_request, Sleep 4000, Fetch example_request], Inr ())" for le
    using l2 f[of "Suc 0"] by (subst retry_loop.simps) (simp add: R nr emit_def num_of_nat_def)
  show ?thesis unfolding sendEventWithRetry_def
    using l1 f[of 0] by (subst retry_loop.simps) (simp add: R nr emit_def num_of_nat_def)
qed

lemma example_run_404:
  "sendEventWithRetry (constructor example_options) id net_404 ''{}'' =
     ([Fetch example_request], Inl (Err (http_error 404 ''not found'')))"
proof -
  have s: "snd (sendEvent (constructor example_options) id ''{}'' (net_404 0)) =
      Inl (Err (http_error 404 ''not found''))"
    unfolding net_404_def by (subst snd_sendEvent_http) (simp_all add: response_ok_def)
  have n: "isNonRetryableError (http_error 404 ''not found'')"
    by (rule client_error_nonretryable) simp_all
  have R: "retryAttempts (constructor example_options) = Num 3"
    by (simp add: constructor_def example_options_def)
  show ?thesis unfolding sendEventWithRetry_def
    by (subst retry_loop.simps) (simp add: s n fst_sendEvent example_request_eq R num_of_nat_def)
qed

lemma fractional_request_eq:
  "sendEvent_request (constructor fractional_options) id ''{}'' = example_request"
  "sendEvent_request (constructor negative_options) id ''{}'' = example_request"
  by (simp_all add: sendEvent_request_def constructor_def fractional_options_def negative_options_def
      example_request_def getHeaders_def strip_trailing_slash_def)

lemma example_run_fractional:
  "sendEventWithRetry (constructor fractional_options) id net_500_always ''{}'' =
     ([Fetch example_request, Sleep 1000, Fetch example_request, Sleep 2000],
      Inl (Err (http_error 500 ''busy'')))"
proof -
  let ?c = "constructor fractional_options"
  have R: "retryAttempts ?c = Num (3 / 2)" "retryDelay ?c = 1000"
    by (simp_all add: constructor_def fractional_options_def)
  have nr: "\<not> isNonRetryableError (http_error 500 ''busy'')"
    by (rule server_error_retryable) simp
  have f: "sendEvent ?c id ''{}'' (net_500_always k) =
       ([Fetch example_request], Inl (Err (http_error 500 ''busy'')))" for k
    by (simp add: sendEvent_def fractional_request_eq net_500_always_def sendEvent_try_def
        response_ok_def sendEvent_catch_def http_error_def new_Error_def)
  have l2: "retry_loop ?c id net_500_always ''{}'' (Suc (Suc 0)) (Some e) = ([], Inl (Err e))" for e
    by (subst retry_loop.simps) (simp add: R num_of_nat_def)
  have l1: "retry_loop ?c id net_500_always ''{}'' (Suc 0) le =
      ([Fetch example_request, Sleep 2000], Inl (Err (http_error 500 ''busy'')))" for le
    using l2 by (subst retry_loop.simps) (simp add: R f nr emit_def num_of_nat_def)
  show ?thesis unfolding sendEventWithRetry_def
    using l1 by (subst retry_loop.simps) (simp add: R f nr emit_def num_of_nat_def)
qed

lemma example_run_negative:
  "sendEventWithRetry (constructor negative_options) id net_429 ''{}'' =
     ([], Inl (NonError ''undefined''))"
proof -
  have R: "retryAttempts (constructor negative_options) = Num (- 1)"
    by (simp add: constructor_def negative_options_def)
  show ?thesis unfolding sendEventWithRetry_def
    by (subst retry_loop.simps) (simp add: R num_of_nat_def)
qed

section \<open>The HTTP client: results\<close>

text \<open>
  C1 as stated fails for a fractional \<^verbatim>\<open>retryAttempts\<close>. With 1.5 and a server that
  always answers 500, attempt 0 fails and the client sleeps; attempt 1 fails and, as
  \<open>1 < 1.5\<close>, the client sleeps again; then \<open>2 \<le> 1.5\<close> is false, the loop ends and the
  error is raised: the last thing done before raising is a sleep, after the final
  attempt.
\<close>

theorem C1_counterexample:
  "retryAttempts (constructor fractional_options) = Num (3 / 2)
   \<and> sendEventWithRetry (constructor fractional_options) id net_500_always ''{}'' =
       ([Fetch example_request, Sleep 1000, Fetch example_request, Sleep 2000],
        Inl (Err (http_error 500 ''busy'')))
   \<and> last [Fetch example_request, Sleep 1000, Fetch example_request, Sleep 2000] = Sleep 2000"
proof -
  have a: "retryAttempts (constructor fractional_options) = Num (3 / 2)"
    by (simp add: constructor_def fractional_options_def)
  show ?thesis using a by (simp add: example_run_fractional)
qed

text \<open>
  C1, amended. For every client whose \<^verbatim>\<open>retryAttempts\<close> is a whole number \<open>R \<ge> 0\<close>,
  every network and every event, the trace of \<open>sendEventWithRetry\<close> has at least one
  and at most \<open>R + 1\<close> requests; requests and sleeps alternate, starting and ending with
  a request (so no sleep follows the last attempt); the sleep before attempt \<open>k \<ge> 1\<close>
  is \<open>retryDelay * 2 ^ (k - 1)\<close>; and an error that is raised is the error of the last
  attempt made.
\<close>

theorem C1_retry_schedule:
  assumes "retryAttempts c = Num (of_nat R)"
  shows "let tr = fst (sendEventWithRetry c stringify net event);
       req = sendEvent_request c stringify event
   in 1 \<le> attempts tr \<and> attempts tr \<le> R + 1
      \<and> length tr = 2 * attempts tr - 1
      \<and> (\<forall>k. k < attempts tr \<longrightarrow> tr ! (2 * k) = Fetch req)
      \<and> (\<forall>k. 1 \<le> k \<and> k < attempts tr \<longrightarrow> tr ! (2 * k - 1) = Sleep (retryDelay c * 2 ^ (k - 1)))
      \<and> last tr = Fetch req
      \<and> (\<forall>t. snd (sendEventWithRetry c stringify net event) = Inl t \<longrightarrow>
            (\<exists>e. snd (sendEvent c stringify event (net (attempts tr - 1))) = Inl e \<and> t = Err (toError e)))"
proof -
  let ?req = "sendEvent_request c stringify event"
  let ?d = "retryDelay c"
  from sendEventWithRetry_shape[OF assms, of stringify net event]
  obtain n where n: "n \<le> R"
    and tr: "fst (sendEventWithRetry c stringify net event) = backoff_from ?req ?d 0 n"
    and res: "(case snd (sendEventWithRetry c stringify net event) of
          Inr r \<Rightarrow> snd (sendEvent c stringify event (net n)) = Inr r
        | Inl t \<Rightarrow> \<exists>e. snd (sendEvent c stringify event (net n)) = Inl e \<and> t = Err (toError e)
                    \<and> (isNonRetryableError (toError e) \<or> n = R))"
    by blast
  have att: "attempts (backoff_from ?req ?d 0 n) = n + 1" by (rule attempts_backoff_from)
  have len: "length (backoff_from ?req ?d 0 n) = 2 * (n + 1) - 1"
    by (simp add: length_backoff_from)
  have ev: "\<forall>k. k < n + 1 \<longrightarrow> backoff_from ?req ?d 0 n ! (2 * k) = Fetch ?req"
    by (simp add: nth_even_backoff_from)
  have od: "\<forall>k. 1 \<le> k \<and> k < n + 1 \<longrightarrow> backoff_from ?req ?d 0 n ! (2 * k - 1) = Sleep (?d * 2 ^ (k - 1))"
  proof (intro allI impI)
    fix k assume k: "1 \<le> k \<and> k < n + 1"
    then have "k - 1 < n" and e: "2 * k - 1 = 2 * (k - 1) + 1" by auto
    from nth_odd_backoff_from[OF this(1), of ?req ?d 0]
    show "backoff_from ?req ?d 0 n ! (2 * k - 1) = Sleep (?d * 2 ^ (k - 1))"
      by (simp only: e) simp
  qed
  have la: "last (backoff_from ?req ?d 0 n) = Fetch ?req" by (rule last_backoff_from)
  have err: "\<forall>t. snd (sendEventWithRetry c stringify net event) = Inl t \<longrightarrow>
            (\<exists>e. snd (sendEvent c stringify event (net n)) = Inl e \<and> t = Err (toError e))"
    using res by auto
  show ?thesis
    unfolding Let_def tr att
    using n len ev od la err by simp
qed

text \<open>
  The example of the specification: status 500 three times, then success, with three
  retries and a delay of 1000: four attempts, sleeps of 1000, 2000 and 4000.
\<close>

theorem C1_retry_schedule_witness:
  "attempts (fst (sendEventWithRetry (constructor example_options) id net_500_thrice ''{}'')) = 4
   \<and> retryAttempts (constructor example_options) = Num (of_nat 3)
   \<and> fst (sendEventWithRetry (constructor example_options) id net_500_thrice ''{}'') ! (2 * 3 - 1)
       = Sleep (retryDelay (constructor example_options) * 2 ^ (3 - 1))
   \<and> fst (sendEventWithRetry (constructor example_options) id net_500_thrice ''{}'') ! (2 * 3)
       = Fetch example_request
   \<and> sleeps (fst (sendEventWithRetry (constructor example_options) id net_500_thrice ''{}''))
       = [1000, 2000, 4000]"
proof -
  have a: "attempts (fst (sendEventWithRetry (constructor example_options) id net_500_thrice ''{}'')) = 4"
    by (simp add: example_run_500 attempts_def)
  have s: "sleeps (fst (sendEventWithRetry (constructor example_options) id net_500_thrice ''{}''))
       = [1000, 2000, 4000]"
    by (simp add: example_run_500 sleeps_def)
  have r: "retryAttempts (constructor example_options) = Num (of_nat 3)"
    by (simp add: constructor_def example_options_def)
  note T = C1_retry_schedule[OF r, of id net_500_thrice "''{}''",
      unfolded Let_def a example_request_eq]
  from T have o: "1 \<le> (3::nat) \<and> (3::nat) < 4 \<longrightarrow>
      fst (sendEventWithRetry (constructor example_options) id net_500_thrice ''{}'') ! (2 * 3 - 1)
       = Sleep (retryDelay (constructor example_options) * 2 ^ (3 - 1))"
    by blast
  from T have e: "(3::nat) < 4 \<longrightarrow>
      fst (sendEventWithRetry (constructor example_options) id net_500_thrice ''{}'') ! (2 * 3)
       = Fetch example_request"
    by blast
  show ?thesis using o e a s r by simp
qed

text \<open>
  C2. When the first attempt (there is one exactly when \<open>0 \<le> retryAttempts\<close>, whole
  or not) is answered with a status from 400 to 499 other than 429,
  \<open>sendEventWithRetry\<close> makes that one request, sleeps never, and raises the very
  error \<open>sendEvent\<close> raised.
\<close>

theorem C2_client_error_no_retry:
  assumes "net 0 = Responded st bodytext js" and "400 \<le> st" and "st \<le> 499" and "st \<noteq> 429"
    and "num_le (Num 0) (retryAttempts c)"
  shows "sendEventWithRetry c stringify net event =
           ([Fetch (sendEvent_request c stringify event)],
            Inl (Err (http_error st (case bodytext of None \<Rightarrow> ''Unknown error'' | Some t \<Rightarrow> t))))
         \<and> snd (sendEvent c stringify event (net 0)) =
             Inl (Err (http_error st (case bodytext of None \<Rightarrow> ''Unknown error'' | Some t \<Rightarrow> t)))
         \<and> attempts (fst (sendEventWithRetry c stringify net event)) = 1
         \<and> sleeps (fst (sendEventWithRetry c stringify net event)) = []"
proof -
  let ?e = "http_error st (case bodytext of None \<Rightarrow> ''Unknown error'' | Some t \<Rightarrow> t)"
  have "\<not> response_ok st" using assms(2,3) by (simp add: response_ok_def)
  then have s: "snd (sendEvent c stringify event (net 0)) = Inl (Err ?e)"
    using assms(1) by (simp add: snd_sendEvent_http)
  have nr: "isNonRetryableError ?e" using assms(2,3,4) by (simp add: client_error_nonretryable)
  have first: "num_le (num_of_nat 0) (retryAttempts c)" using assms(5) by (simp add: num_of_nat_def)
  have r: "sendEventWithRetry c stringify net event = ([Fetch (sendEvent_request c stringify event)], Inl (Err ?e))"
    unfolding sendEventWithRetry_def
    by (subst retry_loop.simps) (simp add: s nr fst_sendEvent first)
  show ?thesis by (simp add: r s attempts_def sleeps_def)
qed

text \<open>Status 404 with three retries configured: one attempt.\<close>

theorem C2_client_error_no_retry_witness:
  "sendEventWithRetry (constructor example_options) id net_404 ''{}'' =
     ([Fetch example_request], Inl (Err (http_error 404 ''not found'')))
   \<and> attempts (fst (sendEventWithRetry (constructor example_options) id net_404 ''{}'')) = 1
   \<and> sleeps (fst (sendEventWithRetry (constructor example_options) id net_404 ''{}'')) = []
   \<and> retryAttempts (constructor example_options) = Num 3"
proof -
  have n: "net_404 0 = Responded 404 (Some ''not found'') (Inr ())" by (simp add: net_404_def)
  have r: "retryAttempts (constructor example_options) = Num 3"
    by (simp add: constructor_def example_options_def)
  have f: "num_le (Num 0) (retryAttempts (constructor example_options))" by (simp add: r)
  from C2_client_error_no_retry[where net = net_404 and st = 404 and bodytext = "Some ''not found''"
      and js = "Inr ()" and c = "constructor example_options" and stringify = id and event = "''{}''"] n r f
  show ?thesis by (simp add: example_request_eq attempts_def sleeps_def)
qed

text \<open>
  C3 as stated fails where \<^verbatim>\<open>retryAttempts\<close> is not a whole number from 0 on. With
  \<open>- 1\<close> the loop makes no attempt, and what is raised is \<^verbatim>\<open>undefined\<close>, no error that
  was observed. With 1.5 and a server that always answers 500 there are two attempts,
  which is not \<open>1.5 + 1\<close>, and a sleep after the second.
\<close>

theorem C3_counterexample:
  "retryAttempts (constructor negative_options) = Num (- 1)
   \<and> sendEventWithRetry (constructor negative_options) id net_429 ''{}'' =
       ([], Inl (NonError ''undefined''))
   \<and> retryAttempts (constructor fractional_options) = Num (3 / 2)
   \<and> sendEventWithRetry (constructor fractional_options) id net_500_always ''{}'' =
       ([Fetch example_request, Sleep 1000, Fetch example_request, Sleep 2000],
        Inl (Err (http_error 500 ''busy'')))
   \<and> attempts [Fetch example_request, Sleep 1000, Fetch example_request, Sleep 2000] = 2
   \<and> Num (of_nat 2) \<noteq> Num (3 / 2 + 1)"
proof -
  have a: "retryAttempts (constructor negative_options) = Num (- 1)"
    by (simp add: constructor_def negative_options_def)
  have b: "retryAttempts (constructor fractional_options) = Num (3 / 2)"
    by (simp add: constructor_def fractional_options_def)
  show ?thesis using a b by (simp add: example_run_negative example_run_fractional attempts_def)
qed

text \<open>
  C3, amended. For a client whose \<^verbatim>\<open>retryAttempts\<close> is a whole number \<open>R \<ge> 0\<close>: when
  every attempt fails with a timeout, a network-level failure, status 429 or a status
  from 500 to 599, \<open>sendEventWithRetry\<close> makes all \<open>R + 1\<close> attempts, with the full
  backoff between them, and then raises the error of the last attempt, which is not one
  of the non-retryable class.
\<close>

theorem C3_retryable_exhaustion:
  assumes "retryAttempts c = Num (of_nat R)"
    and "\<forall>k\<le>R. retryable_failure (net k)"
  shows "attempts (fst (sendEventWithRetry c stringify net event)) = R + 1
       \<and> sleeps (fst (sendEventWithRetry c stringify net event)) =
           map (\<lambda>k. retryDelay c * 2 ^ k) [0..<R]
       \<and> (\<exists>t. snd (sendEvent c stringify event (net R)) = Inl t
              \<and> snd (sendEventWithRetry c stringify net event) = Inl (Err (toError t))
              \<and> \<not> isNonRetryableError (toError t))"
proof -
  let ?req = "sendEvent_request c stringify event"
  let ?d = "retryDelay c"
  from sendEventWithRetry_shape[OF assms(1), of stringify net event]
  obtain n where n: "n \<le> R"
    and tr: "fst (sendEventWithRetry c stringify net event) = backoff_from ?req ?d 0 n"
    and res: "(case snd (sendEventWithRetry c stringify net event) of
          Inr r \<Rightarrow> snd (sendEvent c stringify event (net n)) = Inr r
        | Inl t \<Rightarrow> \<exists>e. snd (sendEvent c stringify event (net n)) = Inl e \<and> t = Err (toError e)
                    \<and> (isNonRetryableError (toError e) \<or> n = R))"
    by blast
  from assms(2) n have "retryable_failure (net n)" by simp
  from retryable_failure_retryable[OF this, of c stringify event]
  obtain t where t: "snd (sendEvent c stringify event (net n)) = Inl t"
    and nt: "\<not> isNonRetryableError (toError t)" by blast
  have "snd (sendEventWithRetry c stringify net event) = Inl (Err (toError t)) \<and> n = R"
    using res t nt by (cases "snd (sendEventWithRetry c stringify net event)") auto
  then show ?thesis using t nt
    by (simp add: tr attempts_backoff_from sleeps_backoff_from)
qed

text \<open>Status 429 on each of the four tries: exhaustion with the error of code HTTP_429.\<close>

theorem C3_retryable_exhaustion_witness:
  "retryAttempts (constructor example_options) = Num (of_nat 3)
   \<and> attempts (fst (sendEventWithRetry (constructor example_options) id net_429 ''{}'')) = 4
   \<and> sleeps (fst (sendEventWithRetry (constructor example_options) id net_429 ''{}'')) = [1000, 2000, 4000]
   \<and> snd (sendEventWithRetry (constructor example_options) id net_429 ''{}'') =
       Inl (Err (http_error 429 ''Unknown error''))
   \<and> err_code (http_error 429 ''Unknown error'') = Some ''HTTP_429''
   \<and> isNonRetryableError (http_error 429 ''Unknown error'') = False"
proof -
  let ?c = "constructor example_options"
  have R: "retryAttempts ?c = Num (of_nat 3)"
    by (simp add: constructor_def example_options_def)
  have d: "retryDelay ?c = 1000"
    by (simp add: constructor_def example_options_def)
  have h: "\<forall>k\<le>3. retryable_failure (net_429 k)"
    by (simp add: retryable_failure_def net_429_def)
  have s: "snd (sendEvent ?c id ''{}'' (net_429 k)) = Inl (Err (http_error 429 ''Unknown error''))" for k
    unfolding net_429_def by (subst snd_sendEvent_http) (simp_all add: response_ok_def)
  have u: "[0..<3] = [0, 1, 2]" by (simp add: upt_rec)
  have c: "err_code (http_error 429 ''Unknown error'') = Some ''HTTP_429''"
    by (simp add: http_error_def show_nat_500)
  from C3_retryable_exhaustion[OF R h, of id "''{}''"] R
  show ?thesis by (simp add: d s u c)
qed

text \<open>
  C7. \<open>sendEvents\<close> returns normally for every list of events and every behaviour of
  the network, and for the empty list it does nothing: no request, no sleep.
\<close>

theorem C7_sendEvents_never_raises:
  "snd (sendEvents c stringify nets events) = Inr ()
   \<and> sendEvents c stringify nets [] = ([], Inr ())"
  by (simp add: sendEvents_def Let_def split: sum.split)

text \<open>A batch of two events that both fail with status 404: nothing is raised.\<close>

theorem C7_sendEvents_never_raises_witness:
  "sendEvents_try (map snd [sendEventWithRetry (constructor example_options) id (nets_404 0) ''{}'',
                            sendEventWithRetry (constructor example_options) id (nets_404 1) ''{}'']) =
     Inl (Err (http_error 404 ''not found''))
   \<and> sendEvents (constructor example_options) id nets_404 [''{}'', ''{}''] =
       ([Fetch example_request, Fetch example_request], Inr ())"
proof -
  have u: "[0..<length [''{}'', ''{}'']] = [0, 1]" by (simp add: upt_rec)
  have t: "fst (sendEvents (constructor example_options) id nets_404 [''{}'', ''{}'']) =
      [Fetch example_request, Fetch example_request]"
    unfolding sendEvents_def Let_def u by (simp add: nets_404_def example_run_404)
  from C7_sendEvents_never_raises[of "constructor example_options" id nets_404 "[''{}'', ''{}'']"]
  have r: "snd (sendEvents (constructor example_options) id nets_404 [''{}'', ''{}'']) = Inr ()"
    by simp
  have p: "sendEvents_try (map snd [sendEventWithRetry (constructor example_options) id (nets_404 0) ''{}'',
                            sendEventWithRetry (constructor example_options) id (nets_404 1) ''{}'']) =
     Inl (Err (http_error 404 ''not found''))"
    by (simp add: nets_404_def example_run_404 sendEvents_try_def)
  show ?thesis using t r p by (simp add: prod_eq_iff)
qed

text \<open>
  C9 as stated fails: with the server URL \<^verbatim>\<open>http://h/\<close> and the empty string as API
  key, the request goes to \<^verbatim>\<open>http://h/api/events\<close>, which is not the configured URL
  followed by \<^verbatim>\<open>/api/events\<close>, and it carries no Authorization header although a
  key is configured.
\<close>

theorem C9_counterexample:
  "fst (sendEventWithRetry (constructor slash_options) id net_ok ''{}'') =
     [Fetch \<lparr>req_method = ''POST'', req_url = ''http://h/api/events'',
             req_headers = [(''Content-Type'', ''application/json'')], req_body = ''{}''\<rparr>]
   \<and> ''http://h/api/events'' \<noteq> opt_serverUrl slash_options @ ''/api/events''
   \<and> opt_apiKey slash_options \<noteq> None
   \<and> map_of [(''Content-Type'', ''application/json'')] ''Authorization'' = None"
proof -
  have "sendEventWithRetry (constructor slash_options) id net_ok ''{}'' =
     ([Fetch \<lparr>req_method = ''POST'', req_url = ''http://h/api/events'',
             req_headers = [(''Content-Type'', ''application/json'')], req_body = ''{}''\<rparr>], Inr ())"
    unfolding sendEventWithRetry_def
    by (subst retry_loop.simps)
      (simp add: sendEvent_def sendEvent_request_def constructor_def slash_options_def net_ok_def
        getHeaders_def strip_trailing_slash_def sendEvent_try_def response_ok_def num_of_nat_def)
  then show ?thesis by (simp add: slash_options_def)
qed

text \<open>
  C9, amended. Every request of \<open>sendEventWithRetry\<close> is a POST to the configured
  server URL, one trailing slash removed, followed by \<^verbatim>\<open>/api/events\<close>; it has the
  header Content-Type: application/json and the serialized event as body; and it has the
  header Authorization: Bearer key exactly when a key is configured and is not the empty
  string.
\<close>

theorem C9_request_shape:
  "\<forall>a \<in> set (fst (sendEventWithRetry (constructor options) stringify net event)).
     \<forall>r. a = Fetch r \<longrightarrow>
       req_method r = ''POST''
     \<and> req_url r = strip_trailing_slash (opt_serverUrl options) @ ''/api/events''
     \<and> map_of (req_headers r) ''Content-Type'' = Some ''application/json''
     \<and> req_body r = stringify event
     \<and> map_of (req_headers r) ''Authorization'' =
         (case opt_apiKey options of
            None \<Rightarrow> None
          | Some k \<Rightarrow> if k = [] then None else Some (''Bearer '' @ k))"
proof (intro ballI allI impI)
  fix a r
  assume a: "a \<in> set (fst (sendEventWithRetry (constructor options) stringify net event))"
    and f: "a = Fetch r"
  let ?c = "constructor options"
  from a f have "Fetch r \<in> set (fst (retry_loop ?c stringify net event 0 None))"
    by (simp add: sendEventWithRetry_def)
  then have r: "r = sendEvent_request ?c stringify event"
    by (rule Fetch_in_retry_loop)
  show "req_method r = ''POST''
     \<and> req_url r = strip_trailing_slash (opt_serverUrl options) @ ''/api/events''
     \<and> map_of (req_headers r) ''Content-Type'' = Some ''application/json''
     \<and> req_body r = stringify event
     \<and> map_of (req_headers r) ''Authorization'' =
         (case opt_apiKey options of
            None \<Rightarrow> None
          | Some k \<Rightarrow> if k = [] then None else Some (''Bearer '' @ k))"
    by (simp add: r sendEvent_request_def constructor_def getHeaders_def split: option.split)
qed

text \<open>The requests of the example run, with the key \<^verbatim>\<open>secret\<close>.\<close>

theorem C9_request_shape_witness:
  "Fetch example_request \<in> set (fst (sendEventWithRetry (constructor example_options) id net_500_thrice ''{}''))
   \<and> req_method example_request = ''POST''
   \<and> req_url example_request = ''http://localhost:3000/api/events''
   \<and> map_of (req_headers example_request) ''Content-Type'' = Some ''application/json''
   \<and> map_of (req_headers example_request) ''Authorization'' = Some ''Bearer secret''
   \<and> req_body example_request = ''{}''"
proof -
  have m: "Fetch example_request \<in> set (fst (sendEventWithRetry (constructor example_options) id net_500_thrice ''{}''))"
    by (simp add: example_run_500)
  from C9_request_shape[of example_options id net_500_thrice "''{}''"] m
  have "req_method example_request = ''POST''
     \<and> req_url example_request = strip_trailing_slash (opt_serverUrl example_options) @ ''/api/events''
     \<and> map_of (req_headers example_request) ''Content-Type'' = Some ''application/json''
     \<and> req_body example_request = id ''{}''
     \<and> map_of (req_headers example_request) ''Authorization'' =
         (case opt_apiKey example_options of
            None \<Rightarrow> None
          | Some k \<Rightarrow> if k = [] then None else Some (''Bearer '' @ k))"
    by blast
  then show ?thesis using m by (simp add: example_options_def strip_trailing_slash_def)
qed

section \<open>The transport: auxiliary facts\<close>

lemma flush_cases:
  "flush state =
     (if buffer state = [] \<or> flushing state then (state, Returned)
      else (state\<lparr>flushing := True, buffer := []\<rparr>, Dispatched (buffer state)))"
  by (simp add: flush_def Let_def)

lemma addToBuffer_cases:
  "addToBuffer config event state =
     (if closed state then (state, [])
      else if length (pushed config event state) < batchSize config
           then (state\<lparr>buffer := pushed config event state\<rparr>, [])
      else if flushing state
           then (state\<lparr>buffer := pushed config event state\<rparr>, [Returned])
      else (state\<lparr>buffer := [], flushing := True\<rparr>, [Dispatched (pushed config event state)]))"
  by (simp add: addToBuffer_def pushed_def flush_cases Let_def)

lemma close_cases:
  "close state =
     (if closed state then (state, [])
      else if buffer state = [] \<or> flushing state
           then (state\<lparr>closed := True, flushTimer := None\<rparr>, [Returned])
      else (state\<lparr>closed := True, flushTimer := None, flushing := True, buffer := []\<rparr>,
            [Dispatched (buffer state)]))"
  by (cases state) (simp add: close_def stopFlushTimer_def flush_cases Let_def)

lemma initial_state_eq:
  "initial_state config =
     \<lparr>buffer = [], flushTimer = Some (Interval (flushInterval config)), closed = False, flushing = False\<rparr>"
  by (simp add: initial_state_def startFlushTimer_def)

lemma length_shift: "length (shift xs) = length xs - 1"
  by (cases xs) simp_all

lemma shift_tl: "shift xs = tl xs"
  by (cases xs) simp_all

lemma length_pushed:
  "queueSizeLimit config = Num (of_nat q) \<Longrightarrow> 1 \<le> q \<Longrightarrow> length (buffer state) \<le> q \<Longrightarrow>
   length (pushed config event state) \<le> q"
  by (auto simp: pushed_def length_shift num_cmp_nat)

lemma step_bounded:
  assumes "queueSizeLimit config = Num (of_nat q)" "1 \<le> q" "length (buffer state) \<le> q"
  shows "length (buffer (fst (step config state i))) \<le> q"
proof (cases i)
  case (Enqueue event)
  then show ?thesis using assms length_pushed[OF assms, of event]
    by (simp add: addToBuffer_cases)
next
  case Tick
  then show ?thesis using assms by (simp add: flush_cases)
next
  case Close
  then show ?thesis using assms by (simp add: close_def stopFlushTimer_def flush_cases Let_def)
next
  case (Settled outcome)
  then show ?thesis using assms by (simp add: flush_settled_def split: sum.split)
qed

lemma run_bounded:
  "queueSizeLimit config = Num (of_nat q) \<Longrightarrow> 1 \<le> q \<Longrightarrow> length (buffer state) \<le> q \<Longrightarrow>
   length (buffer (fst (run config state inputs))) \<le> q"
  by (induction inputs arbitrary: state) (simp_all add: step_bounded)

lemma step_closed: "closed state \<Longrightarrow> closed (fst (step config state i))"
  by (cases i) (simp_all add: addToBuffer_def close_def flush_cases flush_settled_def split: sum.split)

lemma run_closed: "closed state \<Longrightarrow> closed (fst (run config state inputs))"
  by (induction inputs arbitrary: state) (simp_all add: step_closed)

lemma enqueue_while_flushing:
  "flushing state \<Longrightarrow> flushing (fst (addToBuffer config event state))
     \<and> filter is_Dispatched (snd (addToBuffer config event state)) = []"
  by (simp add: addToBuffer_cases)

lemma run_enqueues_while_flushing:
  "flushing state \<Longrightarrow> \<forall>i\<in>set inputs. is_Enqueue i \<Longrightarrow>
   filter is_Dispatched (snd (run config state inputs)) = []"
proof (induction inputs arbitrary: state)
  case Nil
  then show ?case by simp
next
  case (Cons i inputs)
  then obtain event where i: "i = Enqueue event" by (cases i) simp_all
  from enqueue_while_flushing[OF Cons.prems(1), of config event] Cons.IH[of "fst (addToBuffer config event state)"] Cons.prems(2)
  show ?case by (simp add: i)
qed

lemma run_enqueues_one_dispatch:
  "\<forall>i\<in>set inputs. is_Enqueue i \<Longrightarrow>
   length (filter is_Dispatched (snd (run config state inputs))) \<le> 1"
proof (induction inputs arbitrary: state)
  case Nil
  then show ?case by simp
next
  case (Cons i inputs)
  then obtain event where i: "i = Enqueue event" by (cases i) simp_all
  have rest: "\<forall>i\<in>set inputs. is_Enqueue i" using Cons.prems by simp
  show ?case
  proof (cases "filter is_Dispatched (snd (addToBuffer config event state)) = []")
    case True
    then show ?thesis using Cons.IH[OF rest, of "fst (addToBuffer config event state)"] by (simp add: i)
  next
    case False
    then have d: "addToBuffer config event state =
        (state\<lparr>buffer := [], flushing := True\<rparr>, [Dispatched (pushed config event state)])"
      by (simp add: addToBuffer_cases split: if_splits)
    have "flushing (fst (addToBuffer config event state))" by (simp add: d)
    from run_enqueues_while_flushing[OF this rest, of config] show ?thesis by (simp add: i d)
  qed
qed

section \<open>The transport: results\<close>

text \<open>
  C4 as stated fails where the limit is not a whole number from 1 on. With the limit 0
  the first event is appended all the same, and the buffer holds one event. With the
  limit 1.5 neither \<open>0 \<ge> 1.5\<close> nor \<open>1 \<ge> 1.5\<close> holds, two events are appended and
  nothing is dropped: the buffer holds two events.
\<close>

theorem C4_counterexample:
  "buffer (fst (run zero_queue_config (initial_state zero_queue_config) [Enqueue ''A''])) = [''A'']
   \<and> queueSizeLimit zero_queue_config = Num 0
   \<and> num_lt (Num 0) (num_of_nat (length [''A'']))
   \<and> buffer (fst (run fractional_queue_config (initial_state fractional_queue_config)
        [Enqueue ''A'', Enqueue ''B''])) = [''A'', ''B'']
   \<and> queueSizeLimit fractional_queue_config = Num (3 / 2)
   \<and> num_lt (Num (3 / 2)) (num_of_nat (length [''A'', ''B'']))"
  by (simp add: initial_state_eq addToBuffer_cases pushed_def zero_queue_config_def
      fractional_queue_config_def num_ge_def num_of_nat_def)

text \<open>
  C4, amended. When the limit is a whole number \<open>q \<ge> 1\<close>, the buffer never holds more
  than \<open>q\<close> events, whatever happens to the transport; an enqueue that finds the buffer
  at the limit drops exactly its first (oldest) event and keeps the others, in order,
  followed by the new one; below the limit nothing is dropped.
\<close>

theorem C4_bounded_drop_oldest:
  assumes "queueSizeLimit config = Num (of_nat q)" and "1 \<le> q"
  shows "length (buffer (fst (run config (initial_state config) inputs))) \<le> q
   \<and> (\<not> closed state \<and> length (buffer state) = q \<longrightarrow>
        buffer state = hd (buffer state) # tl (buffer state)
      \<and> retained (addToBuffer config event state) = tl (buffer state) @ [event])
   \<and> (\<not> closed state \<and> length (buffer state) < q \<longrightarrow>
        retained (addToBuffer config event state) = buffer state @ [event])"
proof (intro conjI impI)
  have "length (buffer (initial_state config :: 'a TransportState)) \<le> q"
    by (simp add: initial_state_eq)
  from run_bounded[OF assms this]
  show "length (buffer (fst (run config (initial_state config) inputs))) \<le> q" .
next
  assume s: "\<not> closed state \<and> length (buffer state) = q"
  with assms(2) have "buffer state \<noteq> []" by auto
  then show "buffer state = hd (buffer state) # tl (buffer state)" by simp
  show "retained (addToBuffer config event state) = tl (buffer state) @ [event]"
    using s by (simp add: addToBuffer_cases retained_def pushed_def shift_tl assms(1) num_cmp_nat)
next
  assume "\<not> closed state \<and> length (buffer state) < q"
  then show "retained (addToBuffer config event state) = buffer state @ [event]"
    by (simp add: addToBuffer_cases retained_def pushed_def assms(1) num_cmp_nat)
qed

text \<open>Limit 2 and three events: the first one is dropped.\<close>

theorem C4_bounded_drop_oldest_witness:
  "queueSizeLimit capacity2_config = Num (of_nat 2)
   \<and> buffer (fst (run capacity2_config (initial_state capacity2_config)
       [Enqueue ''A'', Enqueue ''B'', Enqueue ''C''])) = [''B'', ''C'']
   \<and> length (buffer (fst (run capacity2_config (initial_state capacity2_config)
       [Enqueue ''A'', Enqueue ''B'', Enqueue ''C'']))) \<le> 2
   \<and> retained (addToBuffer capacity2_config ''C''
        \<lparr>buffer = [''A'', ''B''], flushTimer = None, closed = False, flushing = False\<rparr>) = [''B'', ''C'']
   \<and> retained (addToBuffer capacity2_config ''B''
        \<lparr>buffer = [''A''], flushTimer = None, closed = False, flushing = False\<rparr>) = [''A'', ''B'']"
proof -
  have q: "queueSizeLimit capacity2_config = Num (of_nat 2)" by (simp add: capacity2_config_def)
  have q1: "1 \<le> (2::nat)" by simp
  have r: "buffer (fst (run capacity2_config (initial_state capacity2_config)
       [Enqueue ''A'', Enqueue ''B'', Enqueue ''C''])) = [''B'', ''C'']"
    by (simp add: initial_state_eq addToBuffer_cases pushed_def capacity2_config_def
        num_ge_def num_of_nat_def)
  note T = C4_bounded_drop_oldest[OF q q1]
  from T[where inputs = "[Enqueue ''A'', Enqueue ''B'', Enqueue ''C'']" and event = "''C''"
      and state = "\<lparr>buffer = [''A'', ''B''], flushTimer = None, closed = False, flushing = False\<rparr>"]
  have a: "length (buffer (fst (run capacity2_config (initial_state capacity2_config)
       [Enqueue ''A'', Enqueue ''B'', Enqueue ''C'']))) \<le> 2"
    and b: "retained (addToBuffer capacity2_config ''C''
        \<lparr>buffer = [''A'', ''B''], flushTimer = None, closed = False, flushing = False\<rparr>) = [''B'', ''C'']"
    by simp_all
  from T[where inputs = "[Enqueue ''A'', Enqueue ''B'', Enqueue ''C'']" and event = "''B''"
      and state = "\<lparr>buffer = [''A''], flushTimer = None, closed = False, flushing = False\<rparr>"]
  have c: "retained (addToBuffer capacity2_config ''B''
        \<lparr>buffer = [''A''], flushTimer = None, closed = False, flushing = False\<rparr>) = [''A'', ''B'']"
    by simp
  show ?thesis using q r a b c by simp
qed

text \<open>
  C5. \<open>flush\<close> changes nothing when the buffer is empty or a flush is in progress.
  Otherwise it sets the flag, empties the buffer and hands all the events that were in it
  to \<^verbatim>\<open>sendEvents\<close>; when that settles, with success or with an error, the flag is
  cleared and nothing else changes.
\<close>

theorem C5_flush:
  "(length (buffer state) = 0 \<or> flushing state \<longrightarrow> flush state = (state, Returned))
   \<and> (length (buffer state) \<noteq> 0 \<and> \<not> flushing state \<longrightarrow>
        flush state = (state\<lparr>flushing := True, buffer := []\<rparr>, Dispatched (buffer state))
      \<and> flushing (fst (flush state)) \<and> buffer (fst (flush state)) = []
      \<and> dispatched (snd (flush state)) = buffer state)
   \<and> flush_settled outcome state' = state'\<lparr>flushing := False\<rparr>
   \<and> flushing (flush_settled outcome state') = False
   \<and> (flushing state' \<longrightarrow> step config state' (Settled outcome) = (state'\<lparr>flushing := False\<rparr>, []))"
  by (simp add: flush_cases flush_settled_def split: sum.split)

text \<open>An empty buffer, a flush in progress, a flush that starts, a failed delivery.\<close>

theorem C5_flush_witness:
  "flush \<lparr>buffer = [], flushTimer = None, closed = False, flushing = False\<rparr> =
     (\<lparr>buffer = [], flushTimer = None, closed = False, flushing = False\<rparr>, Returned :: string flush_call)
   \<and> flush \<lparr>buffer = [''C''], flushTimer = None, closed = False, flushing = True\<rparr> =
     (\<lparr>buffer = [''C''], flushTimer = None, closed = False, flushing = True\<rparr>, Returned)
   \<and> flush \<lparr>buffer = [''A'', ''B''], flushTimer = None, closed = False, flushing = False\<rparr> =
     (\<lparr>buffer = [], flushTimer = None, closed = False, flushing = True\<rparr>, Dispatched [''A'', ''B''])
   \<and> step small_config \<lparr>buffer = [''C''], flushTimer = None, closed = False, flushing = True\<rparr>
        (Settled (Inl (NonError ''lost''))) =
     (\<lparr>buffer = [''C''], flushTimer = None, closed = False, flushing = False\<rparr>, [])"
proof -
  note a = C5_flush[where state = "\<lparr>buffer = [] :: string list, flushTimer = None, closed = False, flushing = False\<rparr>"
      and outcome = "Inr ()" and config = small_config
      and state' = "\<lparr>buffer = [''C''], flushTimer = None, closed = False, flushing = True\<rparr>"]
  note b = C5_flush[where state = "\<lparr>buffer = [''C''], flushTimer = None, closed = False, flushing = True\<rparr>"
      and outcome = "Inr ()" and config = small_config
      and state' = "\<lparr>buffer = [''C''], flushTimer = None, closed = False, flushing = True\<rparr>"]
  note c = C5_flush[where state = "\<lparr>buffer = [''A'', ''B''], flushTimer = None, closed = False, flushing = False\<rparr>"
      and outcome = "Inl (NonError ''lost'')" and config = small_config
      and state' = "\<lparr>buffer = [''C''], flushTimer = None, closed = False, flushing = True\<rparr>"]
  from a b c show ?thesis by simp
qed

text \<open>
  What does hold of \<open>close\<close>: the first call marks the transport closed, clears the
  timer and calls \<open>flush\<close> once. On a closed transport \<open>close\<close> and \<open>addToBuffer\<close>
  change nothing and call no \<open>flush\<close>; and a transport that was closed stays closed
  whatever happens next.
\<close>

lemma close_marks_closed:
  "(\<not> closed state \<longrightarrow>
       closed (fst (close state)) \<and> flushTimer (fst (close state)) = None
     \<and> close state = (fst (flush (state\<lparr>closed := True, flushTimer := None\<rparr>)),
                       [snd (flush (state\<lparr>closed := True, flushTimer := None\<rparr>))])
     \<and> length (snd (close state)) = 1)
   \<and> (closed state \<longrightarrow> close state = (state, []) \<and> addToBuffer config event state = (state, []))
   \<and> closed (fst (run config (fst (close state)) inputs))
   \<and> close (fst (run config (fst (close state)) inputs)) = (fst (run config (fst (close state)) inputs), [])
   \<and> addToBuffer config event (fst (run config (fst (close state)) inputs)) =
       (fst (run config (fst (close state)) inputs), [])"
proof -
  have c: "closed (fst (close state))" by (simp add: close_cases)
  have r: "closed (fst (run config (fst (close state)) inputs))" by (rule run_closed[OF c])
  have 1: "\<not> closed state \<longrightarrow>
       closed (fst (close state)) \<and> flushTimer (fst (close state)) = None
     \<and> close state = (fst (flush (state\<lparr>closed := True, flushTimer := None\<rparr>)),
                       [snd (flush (state\<lparr>closed := True, flushTimer := None\<rparr>))])
     \<and> length (snd (close state)) = 1"
    by (simp add: close_cases flush_cases)
  have 2: "closed state \<longrightarrow> close state = (state, []) \<and> addToBuffer config event state = (state, [])"
    by (simp add: close_cases addToBuffer_cases)
  have 3: "close (fst (run config (fst (close state)) inputs)) = (fst (run config (fst (close state)) inputs), [])"
    using r by (simp add: close_cases)
  have 4: "addToBuffer config event (fst (run config (fst (close state)) inputs)) =
       (fst (run config (fst (close state)) inputs), [])"
    using r by (simp add: addToBuffer_cases)
  show ?thesis using 1 2 r 3 4 by blast
qed

text \<open>
  Once the transport is closed and its timer cleared, nothing calls \<open>flush\<close> any more
  and the buffer stays as it is.
\<close>

lemma step_when_closed:
  assumes "closed state" and "flushTimer state = None"
  shows "buffer (fst (step config state i)) = buffer state \<and> snd (step config state i) = []
       \<and> closed (fst (step config state i)) \<and> flushTimer (fst (step config state i)) = None"
proof (cases i)
  case (Enqueue event)
  then show ?thesis using assms by (simp add: addToBuffer_cases)
next
  case Tick
  then show ?thesis using assms by simp
next
  case Close
  then show ?thesis using assms by (simp add: close_cases)
next
  case (Settled outcome)
  then show ?thesis using assms by (simp add: flush_settled_def split: sum.split)
qed

lemma run_when_closed:
  "closed state \<Longrightarrow> flushTimer state = None \<Longrightarrow>
   buffer (fst (run config state inputs)) = buffer state \<and> snd (run config state inputs) = []"
proof (induction inputs arbitrary: state)
  case Nil
  then show ?case by simp
next
  case (Cons i inputs)
  from step_when_closed[OF Cons.prems, of config i]
  have s: "buffer (fst (step config state i)) = buffer state" "snd (step config state i) = []"
    "closed (fst (step config state i))" "flushTimer (fst (step config state i)) = None"
    by simp_all
  from Cons.IH[OF s(3) s(4)] s(1) s(2) show ?case by simp
qed

text \<open>
  C6. The claim: the first \<open>close\<close> performs one final flush, awaited to completion.
  The code does not do that when a flush is in progress. Batch size 2: \<^verbatim>\<open>X\<close> is
  enqueued, the timer fires and the flush of \<^verbatim>\<open>X\<close> starts; \<^verbatim>\<open>A\<close> is enqueued; then
  \<open>close\<close> is called. Its call of \<open>flush\<close> returns at once because the flag is set, so
  \<open>close\<close> completes while the flush of \<^verbatim>\<open>X\<close> has not settled and \<^verbatim>\<open>A\<close> is still
  in the buffer; and whatever happens afterwards, no \<open>flush\<close> is called and \<^verbatim>\<open>A\<close>
  stays in the buffer, never sent.
\<close>

theorem C6_close_during_flush:
  "run small_config (initial_state small_config) [Enqueue ''X'', Tick, Enqueue ''A''] =
     (\<lparr>buffer = [''A''], flushTimer = Some (Interval 1000), closed = False, flushing = True\<rparr>,
      [Dispatched [''X'']])
   \<and> close \<lparr>buffer = [''A''], flushTimer = Some (Interval 1000), closed = False, flushing = True\<rparr> =
       (\<lparr>buffer = [''A''], flushTimer = None, closed = True, flushing = True\<rparr>, [Returned])
   \<and> buffer (fst (run small_config
        \<lparr>buffer = [''A''], flushTimer = None, closed = True, flushing = True\<rparr> inputs)) = [''A'']
   \<and> snd (run small_config
        \<lparr>buffer = [''A''], flushTimer = None, closed = True, flushing = True\<rparr> inputs) = []"
proof -
  have r: "run small_config (initial_state small_config) [Enqueue ''X'', Tick, Enqueue ''A''] =
     (\<lparr>buffer = [''A''], flushTimer = Some (Interval 1000), closed = False, flushing = True\<rparr>,
      [Dispatched [''X'']])"
    by (simp add: initial_state_eq addToBuffer_cases pushed_def small_config_def flush_cases
        num_ge_def num_of_nat_def)
  have c: "close \<lparr>buffer = [''A''], flushTimer = Some (Interval 1000), closed = False, flushing = True\<rparr> =
       (\<lparr>buffer = [''A''], flushTimer = None, closed = True, flushing = True\<rparr>, [Returned])"
    by (simp add: close_cases)
  have l: "buffer (fst (run small_config
        \<lparr>buffer = [''A''], flushTimer = None, closed = True, flushing = True\<rparr> inputs)) = [''A'']
     \<and> snd (run small_config
        \<lparr>buffer = [''A''], flushTimer = None, closed = True, flushing = True\<rparr> inputs) = []"
    using run_when_closed[of "\<lparr>buffer = [''A''], flushTimer = None, closed = True, flushing = True\<rparr>"
        small_config inputs]
    by simp
  show ?thesis using r c l by blast
qed

text \<open>
  C8 as stated fails. Batch size 2; a timer flush of one event is in progress. Three
  events are enqueued with no flush between them: the buffer grows to 1, 2 and 3 events,
  reaching the threshold once, and \<open>flush\<close> is called twice, once for each enqueue at
  or above the threshold; neither call starts a flush.
\<close>

theorem C8_counterexample:
  "fst (run small_config (initial_state small_config) [Enqueue ''X'', Tick]) =
     \<lparr>buffer = [], flushTimer = Some (Interval 1000), closed = False, flushing = True\<rparr>
   \<and> run small_config \<lparr>buffer = [], flushTimer = Some (Interval 1000), closed = False, flushing = True\<rparr>
        [Enqueue ''A''] =
       (\<lparr>buffer = [''A''], flushTimer = Some (Interval 1000), closed = False, flushing = True\<rparr>, [])
   \<and> run small_config \<lparr>buffer = [], flushTimer = Some (Interval 1000), closed = False, flushing = True\<rparr>
        [Enqueue ''A'', Enqueue ''B''] =
       (\<lparr>buffer = [''A'', ''B''], flushTimer = Some (Interval 1000), closed = False, flushing = True\<rparr>, [Returned])
   \<and> run small_config \<lparr>buffer = [], flushTimer = Some (Interval 1000), closed = False, flushing = True\<rparr>
        [Enqueue ''A'', Enqueue ''B'', Enqueue ''C''] =
       (\<lparr>buffer = [''A'', ''B'', ''C''], flushTimer = Some (Interval 1000), closed = False, flushing = True\<rparr>,
        [Returned, Returned])
   \<and> batchSize small_config = 2"
  by (simp add: initial_state_eq addToBuffer_cases pushed_def small_config_def num_ge_def num_of_nat_def flush_cases)

text \<open>
  C8, amended. Every enqueue on an open transport that leaves \<open>batchSize\<close> or more
  events in the buffer calls \<open>flush\<close> once, and no other enqueue calls it; the call
  starts a flush, taking the whole buffer, when no flush is in progress, and does nothing
  otherwise. In a sequence of enqueues with nothing else in between at most one flush
  starts.
\<close>

theorem C8_size_trigger:
  "(\<not> closed state \<longrightarrow>
       length (snd (addToBuffer config event state)) =
         (if batchSize config \<le> length (pushed config event state) then 1 else 0)
     \<and> (batchSize config \<le> length (pushed config event state) \<and> \<not> flushing state \<longrightarrow>
          addToBuffer config event state =
            (state\<lparr>buffer := [], flushing := True\<rparr>, [Dispatched (pushed config event state)]))
     \<and> (batchSize config \<le> length (pushed config event state) \<and> flushing state \<longrightarrow>
          addToBuffer config event state = (state\<lparr>buffer := pushed config event state\<rparr>, [Returned])))
   \<and> ((\<forall>i\<in>set inputs. is_Enqueue i) \<longrightarrow>
        length (filter is_Dispatched (snd (run config state inputs))) \<le> 1)"
proof -
  have 1: "\<not> closed state \<longrightarrow>
       length (snd (addToBuffer config event state)) =
         (if batchSize config \<le> length (pushed config event state) then 1 else 0)
     \<and> (batchSize config \<le> length (pushed config event state) \<and> \<not> flushing state \<longrightarrow>
          addToBuffer config event state =
            (state\<lparr>buffer := [], flushing := True\<rparr>, [Dispatched (pushed config event state)]))
     \<and> (batchSize config \<le> length (pushed config event state) \<and> flushing state \<longrightarrow>
          addToBuffer config event state = (state\<lparr>buffer := pushed config event state\<rparr>, [Returned]))"
    by (simp add: addToBuffer_cases)
  have 2: "(\<forall>i\<in>set inputs. is_Enqueue i) \<longrightarrow>
        length (filter is_Dispatched (snd (run config state inputs))) \<le> 1"
    using run_enqueues_one_dispatch[of inputs config state] by blast
  show ?thesis using 1 2 by blast
qed

text \<open>Batch size 2 and five events: one flush starts, two calls do nothing.\<close>

theorem C8_size_trigger_witness:
  "run small_config (initial_state small_config)
      [Enqueue ''A'', Enqueue ''B'', Enqueue ''C'', Enqueue ''D'', Enqueue ''E''] =
     (\<lparr>buffer = [''C'', ''D'', ''E''], flushTimer = Some (Interval 1000), closed = False, flushing = True\<rparr>,
      [Dispatched [''A'', ''B''], Returned, Returned])
   \<and> length (filter is_Dispatched (snd (run small_config (initial_state small_config)
      [Enqueue ''A'', Enqueue ''B'', Enqueue ''C'', Enqueue ''D'', Enqueue ''E'']))) \<le> 1
   \<and> addToBuffer small_config ''B''
        \<lparr>buffer = [''A''], flushTimer = None, closed = False, flushing = False\<rparr> =
       (\<lparr>buffer = [], flushTimer = None, closed = False, flushing = True\<rparr>, [Dispatched [''A'', ''B'']])
   \<and> addToBuffer small_config ''D''
        \<lparr>buffer = [''C''], flushTimer = None, closed = False, flushing = True\<rparr> =
       (\<lparr>buffer = [''C'', ''D''], flushTimer = None, closed = False, flushing = True\<rparr>, [Returned])"
proof -
  have r: "run small_config (initial_state small_config)
      [Enqueue ''A'', Enqueue ''B'', Enqueue ''C'', Enqueue ''D'', Enqueue ''E''] =
     (\<lparr>buffer = [''C'', ''D'', ''E''], flushTimer = Some (Interval 1000), closed = False, flushing = True\<rparr>,
      [Dispatched [''A'', ''B''], Returned, Returned])"
    by (simp add: initial_state_eq addToBuffer_cases pushed_def small_config_def num_ge_def num_of_nat_def)
  from C8_size_trigger[where config = small_config and event = "''B''"
      and state = "\<lparr>buffer = [''A''], flushTimer = None, closed = False, flushing = False\<rparr>"
      and inputs = "[Enqueue ''A'', Enqueue ''B'', Enqueue ''C'', Enqueue ''D'', Enqueue ''E'']"]
  have a: "addToBuffer small_config ''B''
        \<lparr>buffer = [''A''], flushTimer = None, closed = False, flushing = False\<rparr> =
       (\<lparr>buffer = [], flushTimer = None, closed = False, flushing = True\<rparr>, [Dispatched [''A'', ''B'']])"
    by (simp add: pushed_def small_config_def num_ge_def num_of_nat_def)
  from C8_size_trigger[where config = small_config and event = "''D''"
      and state = "\<lparr>buffer = [''C''], flushTimer = None, closed = False, flushing = True\<rparr>"
      and inputs = "[Enqueue ''A'', Enqueue ''B'', Enqueue ''C'', Enqueue ''D'', Enqueue ''E'']"]
  have b: "addToBuffer small_config ''D''
        \<lparr>buffer = [''C''], flushTimer = None, closed = False, flushing = True\<rparr> =
       (\<lparr>buffer = [''C'', ''D''], flushTimer = None, closed = False, flushing = True\<rparr>, [Returned])"
    by (simp add: pushed_def small_config_def num_ge_def num_of_nat_def)
  from C8_size_trigger[where config = small_config and event = "''D''"
      and state = "initial_state small_config"
      and inputs = "[Enqueue ''A'', Enqueue ''B'', Enqueue ''C'', Enqueue ''D'', Enqueue ''E'']"]
  have c: "length (filter is_Dispatched (snd (run small_config (initial_state small_config)
      [Enqueue ''A'', Enqueue ''B'', Enqueue ''C'', Enqueue ''D'', Enqueue ''E'']))) \<le> 1"
    by simp
  show ?thesis using r a b c by simp
qed

end
